theory Spec2Isabelle
  imports Complex_Main "HOL-Library.Word" "HOL-Library.List_Lexorder"
begin

section \<open>JavaScript values\<close>

text \<open>
  A JavaScript string is a sequence of UTF-16 code units; \<open>length\<close>, \<open>padEnd\<close>,
  \<open>substring\<close> and the default \<open>sort\<close> all count and compare code units. A string
  literal of the source is written \<open>js ''...''\<close>.
\<close>

type_synonym jschar = "16 word"
type_synonym jsstring = "jschar list"

definition js :: "string \<Rightarrow> jsstring" where
  "js s = map of_char s"

text \<open>
  \<open>String.prototype.toLowerCase\<close>. The model maps the letters A to Z and leaves every
  other code unit alone; the Unicode case mapping of letters outside ASCII is left out.
\<close>

definition lowerChar :: "jschar \<Rightarrow> jschar" where
  "lowerChar c = (if 0x41 \<le> c \<and> c \<le> 0x5A then c + 0x20 else c)"

definition toLowerCase :: "jsstring \<Rightarrow> jsstring" where
  "toLowerCase s = map lowerChar s"

definition endsWith :: "jsstring \<Rightarrow> jsstring \<Rightarrow> bool" where
  "endsWith s suffix =
     (length suffix \<le> length s \<and> drop (length s - length suffix) s = suffix)"

text \<open>
  What a \<open>throw\<close> carries: an \<open>Error\<close> object with its name and message, or any other
  value (given by its string conversion). \<open>thrown_toString\<close> is the conversion a
  template literal applies to it (\<open>Error.prototype.toString\<close> for an \<open>Error\<close>).
\<close>

datatype thrown = ErrorObject jsstring jsstring | NonError jsstring

fun thrown_toString :: "thrown \<Rightarrow> jsstring" where
  "thrown_toString (ErrorObject name msg) =
     (if name = [] then msg else if msg = [] then name else name @ js '': '' @ msg)"
| "thrown_toString (NonError s) = s"

text \<open>
  The outcome of running an \<open>async\<close> function: the value its promise resolves to
  (\<open>Inr\<close>) or the exception it rejects with (\<open>Inl\<close>), and the lines it wrote with
  \<open>console.error\<close>.
\<close>

record 'a run =
  returned :: "thrown + 'a"
  logged :: "jsstring list"

text \<open>
  A JavaScript number is an IEEE double. \<open>toNumber i\<close> is the double that an integer
  \<open>i\<close> becomes when it is converted (round to nearest, ties to even, on a mantissa of
  53 bits); that double is an integer again, and it is \<open>i\<close> itself up to \<open>2^53\<close>.
  \<open>mantissa_shift n\<close> is the number of low bits that do not fit.
\<close>

fun mantissa_shift :: "nat \<Rightarrow> nat" where
  "mantissa_shift n =
     (if n < 9007199254740992 then 0 else Suc (mantissa_shift (n div 2)))"

definition round_to_double :: "nat \<Rightarrow> nat" where
  "round_to_double n =
     (let s = mantissa_shift n; q = n div 2 ^ s; r = n mod 2 ^ s
      in if 2 * r > 2 ^ s \<or> (2 * r = 2 ^ s \<and> odd q) then (q + 1) * 2 ^ s else q * 2 ^ s)"

definition toNumber :: "int \<Rightarrow> int" where
  "toNumber i = (if i < 0 then - int (round_to_double (nat (- i))) else int (round_to_double (nat i)))"

section \<open>The message store (loader.ts)\<close>

text \<open>
  Modelled from the spec: the declarations of \<open>types.ts\<close> (\<open>TokenUsage\<close>,
  \<open>MessageJson\<close>, \<open>CursorState\<close>) are not among the sources. The records below follow
  the Record and Checkpoint of the data model and the fields that the loader and its tests
  read and write. \<open>MessageData\<close> is \<open>Omit<MessageJson, "id" | "sessionID">\<close>, the
  shape of the JSON text of a row; \<open>MessageJson\<close> adds the two identifiers.
\<close>

record TokenUsage =
  tokens_input :: int
  tokens_output :: int
  tokens_reasoning :: int
  tokens_cache_read :: int
  tokens_cache_write :: int

record ModelRef =
  model_providerID :: "jsstring option"
  model_modelID :: "jsstring option"

record MessageTime =
  time_created_ms :: "int option"
  time_completed_ms :: "int option"

record MessageData =
  role :: jsstring
  model :: "ModelRef option"
  providerID :: "jsstring option"
  modelID :: "jsstring option"
  tokens :: "TokenUsage option"
  time :: "MessageTime option"

record MessageJson = MessageData +
  msg_id :: jsstring
  sessionID :: jsstring

record CursorState =
  lastTimestamp :: int

text \<open>
  A row of the \<open>message\<close> table as SQLite stores it. \<open>time_created\<close> is an INTEGER
  column: a signed integer of 64 bits, which the model takes as an integer without
  bound. The column \<open>data\<close> holds JSON text; the model keeps what \<open>JSON.parse\<close> makes
  of it: the exception it throws on malformed text, or the parsed object.
\<close>

record StoredRow =
  col_id :: jsstring
  col_session_id :: jsstring
  col_time_created :: int
  col_data :: "thrown + MessageData"

text \<open>
  \<open>MessageRow\<close>, the object that the query hands to JavaScript for a row. The database
  is opened without \<open>safeIntegers\<close>, so an INTEGER column arrives as a number: the
  stored integer converted to a double.
\<close>

record MessageRow =
  row_id :: jsstring
  session_id :: jsstring
  time_created :: int
  data :: "thrown + MessageData"

definition read_row :: "StoredRow \<Rightarrow> MessageRow" where
  "read_row r =
     \<lparr>row_id = col_id r, session_id = col_session_id r,
      time_created = toNumber (col_time_created r), data = col_data r\<rparr>"

text \<open>
  What is found at \<open>storagePath\<close>: no database that can be opened (\<open>new Database\<close>
  throws), a database on which the query throws (no \<open>message\<close> table, a corrupt file),
  or the rows of the \<open>message\<close> table.
\<close>

datatype store =
  NoDatabase thrown
| NoMessageTable thrown
| Database "StoredRow list"

definition openDb :: "store \<Rightarrow> thrown + store" where
  "openDb dataPath = (case dataPath of NoDatabase e \<Rightarrow> Inl e | _ \<Rightarrow> Inr dataPath)"

text \<open>
  \<open>db.query(SELECT ... WHERE p).all()\<close>: SQLite tests the condition on the stored
  values (it compares a stored integer with a bound number exactly), and the rows that
  satisfy it are handed over as \<open>MessageRow\<close> objects, in table order.
\<close>

definition query_all :: "store \<Rightarrow> (StoredRow \<Rightarrow> bool) \<Rightarrow> thrown + MessageRow list" where
  "query_all db p =
     (case db of
        NoDatabase e \<Rightarrow> Inl e
      | NoMessageTable e \<Rightarrow> Inl e
      | Database rows \<Rightarrow> Inr (map read_row (filter p rows)))"

definition rowToMessage :: "MessageRow \<Rightarrow> thrown + MessageJson" where
  "rowToMessage row =
     (case data row of
        Inl e \<Rightarrow> Inl e
      | Inr d \<Rightarrow>
          Inr \<lparr>role = role d, model = model d, providerID = providerID d,
               modelID = modelID d, tokens = tokens d, time = time d,
               msg_id = row_id row, sessionID = session_id row\<rparr>)"

text \<open>\<open>rows.map(f)\<close> where \<open>f\<close> may throw: the first exception ends the map.\<close>

fun map_throwing :: "('a \<Rightarrow> thrown + 'b) \<Rightarrow> 'a list \<Rightarrow> thrown + 'b list" where
  "map_throwing f [] = Inr []"
| "map_throwing f (x # xs) =
     (case f x of
        Inl e \<Rightarrow> Inl e
      | Inr y \<Rightarrow> (case map_throwing f xs of Inl e \<Rightarrow> Inl e | Inr ys \<Rightarrow> Inr (y # ys)))"

text \<open>
  \<open>msg.model?.providerID ?? msg.providerID ?? "unknown"\<close>, the provider id that the
  filter looks at.
\<close>

definition providerId_of :: "'a MessageData_scheme \<Rightarrow> jsstring" where
  "providerId_of msg =
     (case (case model msg of None \<Rightarrow> None | Some m \<Rightarrow> model_providerID m) of
        Some p \<Rightarrow> p
      | None \<Rightarrow> (case providerID msg of Some p \<Rightarrow> p | None \<Rightarrow> js ''unknown''))"

text \<open>
  \<open>isValidMessage\<close>. The optional \<open>providerFilter\<close> is tested for truthiness, so an
  absent filter and the empty string both switch the provider test off.
\<close>

definition isValidMessage :: "'a MessageData_scheme \<Rightarrow> jsstring option \<Rightarrow> bool" where
  "isValidMessage msg providerFilter =
     (if role msg = js ''user'' then False
      else if tokens msg = None then False
      else (case providerFilter of
              None \<Rightarrow> True
            | Some f \<Rightarrow>
                if f = [] then True
                else if toLowerCase (providerId_of msg) \<noteq> f then False
                else True))"

text \<open>
  The \<open>try\<close> block of \<open>loadRecentMessages\<close>; \<open>now\<close> is the value of \<open>Date.now()\<close>
  and an absent \<open>hoursBack\<close> defaults to 24. The \<open>finally\<close> clause closes the database
  handle and changes neither the value nor the exception.
\<close>

definition loadRecentMessages_try ::
  "int \<Rightarrow> store \<Rightarrow> int option \<Rightarrow> jsstring option \<Rightarrow> thrown + MessageJson list" where
  "loadRecentMessages_try now storagePath hoursBack providerFilter =
     (let cutoffTime = now - (case hoursBack of None \<Rightarrow> 24 | Some h \<Rightarrow> h) * 60 * 60 * 1000 in
      case openDb storagePath of
        Inl e \<Rightarrow> Inl e
      | Inr db \<Rightarrow>
          (case query_all db (\<lambda>r. col_time_created r \<ge> cutoffTime) of
             Inl e \<Rightarrow> Inl e
           | Inr rows \<Rightarrow>
               (case map_throwing rowToMessage rows of
                  Inl e \<Rightarrow> Inl e
                | Inr msgs \<Rightarrow> Inr (filter (\<lambda>msg. isValidMessage msg providerFilter) msgs))))"

definition loadRecentMessages ::
  "int \<Rightarrow> store \<Rightarrow> int option \<Rightarrow> jsstring option \<Rightarrow> MessageJson list run" where
  "loadRecentMessages now storagePath hoursBack providerFilter =
     (case loadRecentMessages_try now storagePath hoursBack providerFilter of
        Inr msgs \<Rightarrow> \<lparr>returned = Inr msgs, logged = []\<rparr>
      | Inl err \<Rightarrow>
          \<lparr>returned = Inr [],
           logged = [js ''Error reading recent messages: '' @ thrown_toString err]\<rparr>)"

definition loadMessages_try :: "store \<Rightarrow> jsstring option \<Rightarrow> thrown + MessageJson list" where
  "loadMessages_try storagePath providerFilter =
     (case openDb storagePath of
        Inl e \<Rightarrow> Inl e
      | Inr db \<Rightarrow>
          (case query_all db (\<lambda>r. True) of
             Inl e \<Rightarrow> Inl e
           | Inr rows \<Rightarrow>
               (case map_throwing rowToMessage rows of
                  Inl e \<Rightarrow> Inl e
                | Inr msgs \<Rightarrow> Inr (filter (\<lambda>msg. isValidMessage msg providerFilter) msgs))))"

definition loadMessages :: "store \<Rightarrow> jsstring option \<Rightarrow> MessageJson list run" where
  "loadMessages storagePath providerFilter =
     (case loadMessages_try storagePath providerFilter of
        Inr msgs \<Rightarrow> \<lparr>returned = Inr msgs, logged = []\<rparr>
      | Inl err \<Rightarrow>
          \<lparr>returned = Inr [],
           logged = [js ''Error reading messages from database: '' @ thrown_toString err]\<rparr>)"

definition createCursor :: CursorState where
  "createCursor = \<lparr>lastTimestamp = 0\<rparr>"

record LoadResult =
  messages :: "MessageJson list"
  cursor :: CursorState

text \<open>The loop \<open>for (const row of rows)\<close> that raises \<open>maxTimestamp\<close>.\<close>

fun maxTimestamp_loop :: "int \<Rightarrow> MessageRow list \<Rightarrow> int" where
  "maxTimestamp_loop maxTimestamp [] = maxTimestamp"
| "maxTimestamp_loop maxTimestamp (row # rows) =
     maxTimestamp_loop
       (if time_created row > maxTimestamp then time_created row else maxTimestamp) rows"

definition loadMessagesIncremental_try ::
  "store \<Rightarrow> CursorState \<Rightarrow> jsstring option \<Rightarrow> thrown + LoadResult" where
  "loadMessagesIncremental_try storagePath c providerFilter =
     (case openDb storagePath of
        Inl e \<Rightarrow> Inl e
      | Inr db \<Rightarrow>
          (case query_all db (\<lambda>r. col_time_created r > lastTimestamp c) of
             Inl e \<Rightarrow> Inl e
           | Inr rows \<Rightarrow>
               (case map_throwing rowToMessage rows of
                  Inl e \<Rightarrow> Inl e
                | Inr msgs \<Rightarrow>
                    Inr \<lparr>messages = filter (\<lambda>msg. isValidMessage msg providerFilter) msgs,
                         cursor = \<lparr>lastTimestamp = maxTimestamp_loop (lastTimestamp c) rows\<rparr>\<rparr>)))"

definition loadMessagesIncremental ::
  "store \<Rightarrow> CursorState \<Rightarrow> jsstring option \<Rightarrow> LoadResult run" where
  "loadMessagesIncremental storagePath c providerFilter =
     (case loadMessagesIncremental_try storagePath c providerFilter of
        Inr r \<Rightarrow> \<lparr>returned = Inr r, logged = []\<rparr>
      | Inl err \<Rightarrow>
          \<lparr>returned = Inr \<lparr>messages = [], cursor = \<lparr>lastTimestamp = lastTimestamp c\<rparr>\<rparr>,
           logged = [js ''Error in incremental load: '' @ thrown_toString err]\<rparr>)"

text \<open>
  Successive incremental calls, as a watch session makes them: each call takes the
  cursor the call before returned. The store and the filter may differ from call to
  call. The result lists the cursor after each call, and stops at a call that rejects.
\<close>

fun successive_cursors :: "(store \<times> jsstring option) list \<Rightarrow> CursorState \<Rightarrow> CursorState list" where
  "successive_cursors [] c = []"
| "successive_cursors ((s, f) # calls) c =
     (case returned (loadMessagesIncremental s c f) of
        Inl e \<Rightarrow> []
      | Inr r \<Rightarrow> cursor r # successive_cursors calls (cursor r))"

section \<open>The message files (the file-tree loader)\<close>

text \<open>
  What is found under \<open>storagePath/message\<close>. An entry of the directory is something
  \<open>statSync\<close> throws on, something that is not a directory, or a session directory
  with its listing (which \<open>readdirSync\<close> may throw on). A file is its name and what
  \<open>readJsonFile\<close> makes of it: an exception or the parsed message.
\<close>

datatype dir_entry =
  StatFails thrown
| NotDirectory
| Directory "thrown + (jsstring \<times> (thrown + MessageJson)) list"

type_synonym message_dir = "thrown + (jsstring \<times> dir_entry) list"

text \<open>
  The loop over \<open>sessionDirs\<close> that fills \<open>filePaths\<close>. The model gathers, in the
  same order, what reading each path will give.
\<close>

fun collect_files :: "(jsstring \<times> dir_entry) list \<Rightarrow> thrown + (thrown + MessageJson) list" where
  "collect_files [] = Inr []"
| "collect_files ((sessionDir, entry) # rest) =
     (case entry of
        StatFails e \<Rightarrow> Inl e
      | NotDirectory \<Rightarrow> collect_files rest
      | Directory listing \<Rightarrow>
          (case listing of
             Inl e \<Rightarrow> Inl e
           | Inr files \<Rightarrow>
               (case collect_files rest of
                  Inl e \<Rightarrow> Inl e
                | Inr later \<Rightarrow>
                    Inr (map snd (filter (\<lambda>(f, content). endsWith f (js ''.json'')) files)
                         @ later))))"

text \<open>The callback of \<open>results.filter\<close>; \<open>None\<close> is the \<open>null\<close> of a file that failed to read.\<close>

definition keep_message :: "jsstring option \<Rightarrow> MessageJson option \<Rightarrow> bool" where
  "keep_message providerFilter msg =
     (case msg of
        None \<Rightarrow> False
      | Some m \<Rightarrow>
          if role m = js ''user'' then False
          else if tokens m = None then False
          else (case providerFilter of
                  None \<Rightarrow> True
                | Some f \<Rightarrow>
                    if f = [] then True
                    else if toLowerCase (providerId_of m) \<noteq> f then False
                    else True))"

fun present :: "'a option list \<Rightarrow> 'a list" where
  "present [] = []"
| "present (None # xs) = present xs"
| "present (Some x # xs) = x # present xs"

definition loadMessages_files_try :: "message_dir \<Rightarrow> jsstring option \<Rightarrow> thrown + MessageJson list" where
  "loadMessages_files_try messagesDir providerFilter =
     (case messagesDir of
        Inl e \<Rightarrow> Inl e
      | Inr sessionDirs \<Rightarrow>
          (case collect_files sessionDirs of
             Inl e \<Rightarrow> Inl e
           | Inr contents \<Rightarrow>
               (let results = map (\<lambda>content. case content of Inl e \<Rightarrow> None | Inr m \<Rightarrow> Some m)
                                  contents
                in Inr (present (filter (keep_message providerFilter) results)))))"

definition loadMessages_files :: "message_dir \<Rightarrow> jsstring option \<Rightarrow> MessageJson list run" where
  "loadMessages_files messagesDir providerFilter =
     (case loadMessages_files_try messagesDir providerFilter of
        Inr msgs \<Rightarrow> \<lparr>returned = Inr msgs, logged = []\<rparr>
      | Inl err \<Rightarrow>
          \<lparr>returned = Inr [],
           logged = [js ''Error reading messages directory: '' @ thrown_toString err]\<rparr>)"

section \<open>Fixtures\<close>

text \<open>
  The records that the loader's tests insert: \<open>assistantData\<close>, \<open>userData\<close> and
  \<open>noTokensData\<close>, and \<open>insertMessage\<close>, which stores one as a row.
\<close>

definition assistantData :: "jsstring \<Rightarrow> int \<Rightarrow> MessageData" where
  "assistantData provider created =
     \<lparr>role = js ''assistant'',
      model = Some \<lparr>model_providerID = Some provider,
                    model_modelID = Some (js ''claude-3-5-sonnet'')\<rparr>,
      providerID = None, modelID = None,
      tokens = Some \<lparr>tokens_input = 100, tokens_output = 50, tokens_reasoning = 0,
                     tokens_cache_read = 0, tokens_cache_write = 0\<rparr>,
      time = Some \<lparr>time_created_ms = Some created, time_completed_ms = Some (created + 1000)\<rparr>\<rparr>"

definition userData :: MessageData where
  "userData =
     \<lparr>role = js ''user'', model = None, providerID = None, modelID = None,
      tokens = Some \<lparr>tokens_input = 100, tokens_output = 0, tokens_reasoning = 0,
                     tokens_cache_read = 0, tokens_cache_write = 0\<rparr>,
      time = None\<rparr>"

definition noTokensData :: MessageData where
  "noTokensData =
     \<lparr>role = js ''assistant'',
      model = Some \<lparr>model_providerID = Some (js ''anthropic''),
                    model_modelID = Some (js ''claude-3-5-sonnet'')\<rparr>,
      providerID = None, modelID = None, tokens = None, time = None\<rparr>"

definition insertMessage :: "string \<Rightarrow> string \<Rightarrow> MessageData \<Rightarrow> int \<Rightarrow> StoredRow" where
  "insertMessage i sessionId d timeCreated =
     \<lparr>col_id = js i, col_session_id = js sessionId, col_time_created = timeCreated,
      col_data = Inr d\<rparr>"

definition asMessage :: "string \<Rightarrow> string \<Rightarrow> MessageData \<Rightarrow> MessageJson" where
  "asMessage i sessionId d =
     \<lparr>role = role d, model = model d, providerID = providerID d, modelID = modelID d,
      tokens = tokens d, time = time d, msg_id = js i, sessionID = js sessionId\<rparr>"

text \<open>A store with an accepted record at 2000 and, after it, a user record at 3000.\<close>

definition mixed_store :: store where
  "mixed_store =
     Database [insertMessage ''asst-1'' ''ses-1'' (assistantData (js ''anthropic'') 2000) 2000,
               insertMessage ''user-1'' ''ses-1'' userData 3000]"

text \<open>A store with one record of each kind the filter tells apart.\<close>

definition filter_store :: store where
  "filter_store =
     Database [insertMessage ''user-1'' ''ses-1'' userData 1000,
               insertMessage ''no-tokens'' ''ses-1'' noTokensData 1500,
               insertMessage ''asst-1'' ''ses-1'' (assistantData (js ''anthropic'') 2000) 2000]"

definition filter_dir :: message_dir where
  "filter_dir =
     Inr [(js ''ses-1'',
           Directory (Inr [(js ''user-1.json'', Inr (asMessage ''user-1'' ''ses-1'' userData)),
                           (js ''no-tokens.json'', Inr (asMessage ''no-tokens'' ''ses-1'' noTokensData)),
                           (js ''broken.json'', Inl (ErrorObject (js ''SyntaxError'') (js ''JSON Parse error''))),
                           (js ''notes.txt'', Inr (asMessage ''notes'' ''ses-1'' (assistantData (js ''openai'') 1))),
                           (js ''asst-1.json'',
                            Inr (asMessage ''asst-1'' ''ses-1'' (assistantData (js ''anthropic'') 2000)))])),
          (js ''README'', NotDirectory)]"

text \<open>
  A store whose only record, an accepted one, has the creation time \<open>2^53 + 1\<close>, the
  first integer that is not a double.
\<close>

definition far_store :: store where
  "far_store =
     Database [insertMessage ''asst-far'' ''ses-1'' (assistantData (js ''anthropic'') 0)
                 9007199254740993]"

text \<open>
  A store whose creation times are all safe integers (\<open>Number.MAX_SAFE_INTEGER\<close> is
  \<open>2^53 - 1\<close>), as every time in milliseconds is. A store that cannot be read has no
  creation time.
\<close>

definition safe_timestamps :: "store \<Rightarrow> bool" where
  "safe_timestamps s =
     (case s of
        Database rows \<Rightarrow> list_all (\<lambda>row. \<bar>col_time_created row\<bar> \<le> 9007199254740991) rows
      | _ \<Rightarrow> True)"

text \<open>
  The checkpoint as the specification words it: the larger of the input checkpoint and
  the largest creation time among the accepted records, the rows after the checkpoint
  whose message passes the validity filter.
\<close>

definition accepted_row :: "int \<Rightarrow> jsstring option \<Rightarrow> StoredRow \<Rightarrow> bool" where
  "accepted_row c f row =
     (col_time_created row > c \<and>
      (case rowToMessage (read_row row) of Inl e \<Rightarrow> False | Inr m \<Rightarrow> isValidMessage m f))"

definition checkpoint_over_accepted :: "int \<Rightarrow> jsstring option \<Rightarrow> StoredRow list \<Rightarrow> int" where
  "checkpoint_over_accepted c f rows =
     Max (set (c # map (\<lambda>row. time_created (read_row row)) (filter (accepted_row c f) rows)))"

section \<open>The Codex quota loader\<close>

text \<open>
  Modelled from the spec: the declarations of \<open>QuotaSnapshot\<close> and
  \<open>CodexUsageResponse\<close> in \<open>types.ts\<close> are not among the sources. The records follow
  the Quota Snapshot of the data model and the fields \<open>loadCodexQuota\<close> reads and
  writes. A JavaScript number is taken as a real number here, so \<open>used_percent / 100\<close>
  is the exact quotient where the code divides two doubles.
\<close>

record RateLimitWindow =
  used_percent :: real
  reset_at :: int

record RateLimit =
  primary_window :: "RateLimitWindow option"
  secondary_window :: "RateLimitWindow option"

record CodexUsageResponse =
  rate_limit :: "RateLimit option"
  code_review_rate_limit :: "RateLimit option"

record QuotaSnapshot =
  source :: jsstring
  label :: jsstring
  used :: real
  resetAt :: "int option"
  error :: "jsstring option"

text \<open>
  What \<open>fetch\<close> resolves to: \<open>ok\<close>, \<open>status\<close>, and what \<open>response.json()\<close> gives,
  the parsed body or the exception it rejects with.
\<close>

record Response =
  ok :: bool
  status :: nat
  json :: "thrown + CodexUsageResponse"

text \<open>The decimal digits of a natural number, as a template literal prints it.\<close>

fun nat_toString :: "nat \<Rightarrow> jsstring" where
  "nat_toString n =
     (if n < 10 then [0x30 + of_nat n]
      else nat_toString (n div 10) @ [0x30 + of_nat (n mod 10)])"

text \<open>
  The body of the \<open>try\<close> block after the response has arrived with \<open>ok\<close>: the three
  tests that push a snapshot each, and the fallback for an empty \<open>results\<close>.
\<close>

definition snapshots_of :: "CodexUsageResponse \<Rightarrow> QuotaSnapshot list" where
  "snapshots_of d =
     (let results = [];
          results =
            (case (case rate_limit d of None \<Rightarrow> None | Some l \<Rightarrow> primary_window l) of
               None \<Rightarrow> results
             | Some w \<Rightarrow>
                 results @ [\<lparr>source = js ''codex'', label = js ''Codex - 5h Limit'',
                             used = used_percent w / 100, resetAt = Some (reset_at w),
                             error = None\<rparr>]);
          results =
            (case (case rate_limit d of None \<Rightarrow> None | Some l \<Rightarrow> secondary_window l) of
               None \<Rightarrow> results
             | Some w \<Rightarrow>
                 results @ [\<lparr>source = js ''codex'', label = js ''Codex - Weekly'',
                             used = used_percent w / 100, resetAt = Some (reset_at w),
                             error = None\<rparr>]);
          results =
            (case (case code_review_rate_limit d of None \<Rightarrow> None | Some l \<Rightarrow> primary_window l) of
               None \<Rightarrow> results
             | Some w \<Rightarrow>
                 results @ [\<lparr>source = js ''codex'', label = js ''Codex - Code Review'',
                             used = used_percent w / 100, resetAt = Some (reset_at w),
                             error = None\<rparr>])
      in if length results > 0 then results
         else [\<lparr>source = js ''codex'', label = js ''Codex'', used = 0, resetAt = None,
                error = Some (js ''No rate limit data'')\<rparr>])"

text \<open>
  \<open>fetch\<close> is the network: given the bearer token it resolves to a response or rejects.
\<close>

definition loadCodexQuota_try :: "(jsstring \<Rightarrow> thrown + Response) \<Rightarrow> jsstring \<Rightarrow> thrown + QuotaSnapshot list" where
  "loadCodexQuota_try fetch token =
     (case fetch token of
        Inl e \<Rightarrow> Inl e
      | Inr response \<Rightarrow>
          if \<not> ok response then
            Inr [\<lparr>source = js ''codex'', label = js ''Codex'', used = 0, resetAt = None,
                  error = Some (js ''API error: '' @ nat_toString (status response))\<rparr>]
          else
            (case json response of
               Inl e \<Rightarrow> Inl e
             | Inr d \<Rightarrow> Inr (snapshots_of d)))"

definition loadCodexQuota :: "(jsstring \<Rightarrow> thrown + Response) \<Rightarrow> jsstring option \<Rightarrow> thrown + QuotaSnapshot list" where
  "loadCodexQuota fetch token =
     (case token of
        None \<Rightarrow>
          Inr [\<lparr>source = js ''codex'', label = js ''Codex'', used = 0, resetAt = None,
                error = Some (js ''No --codex-token provided'')\<rparr>]
      | Some t \<Rightarrow>
          if t = [] then
            Inr [\<lparr>source = js ''codex'', label = js ''Codex'', used = 0, resetAt = None,
                  error = Some (js ''No --codex-token provided'')\<rparr>]
          else
            (case loadCodexQuota_try fetch t of
               Inr snapshots \<Rightarrow> Inr snapshots
             | Inl err \<Rightarrow>
                 Inr [\<lparr>source = js ''codex'', label = js ''Codex'', used = 0, resetAt = None,
                       error = Some (js ''Request failed: '' @
                                (case err of
                                   ErrorObject name message \<Rightarrow> message
                                 | NonError v \<Rightarrow> js ''Unknown error''))\<rparr>]))"

text \<open>A snapshot whose error field holds a non-empty string.\<close>

definition error_populated :: "QuotaSnapshot \<Rightarrow> bool" where
  "error_populated s = (case error s of None \<Rightarrow> False | Some e \<Rightarrow> e \<noteq> [])"

text \<open>The rate-limit windows present in a response, in the order the loader reads them.\<close>

definition windows_of :: "CodexUsageResponse \<Rightarrow> RateLimitWindow list" where
  "windows_of d =
     (case rate_limit d of
        None \<Rightarrow> []
      | Some l \<Rightarrow>
          (case primary_window l of None \<Rightarrow> [] | Some w \<Rightarrow> [w]) @
          (case secondary_window l of None \<Rightarrow> [] | Some w \<Rightarrow> [w])) @
     (case code_review_rate_limit d of
        None \<Rightarrow> []
      | Some l \<Rightarrow> (case primary_window l of None \<Rightarrow> [] | Some w \<Rightarrow> [w]))"

text \<open>A response with all three windows, and a network that knows three kinds of token.\<close>

definition sample_usage :: CodexUsageResponse where
  "sample_usage =
     \<lparr>rate_limit = Some \<lparr>primary_window = Some \<lparr>used_percent = 48, reset_at = 1700000000\<rparr>,
                          secondary_window = Some \<lparr>used_percent = 100, reset_at = 1700500000\<rparr>\<rparr>,
      code_review_rate_limit = Some \<lparr>primary_window = Some \<lparr>used_percent = 0, reset_at = 1700000500\<rparr>,
                                      secondary_window = None\<rparr>\<rparr>"

definition sample_fetch :: "jsstring \<Rightarrow> thrown + Response" where
  "sample_fetch token =
     (if token = js ''good'' then Inr \<lparr>ok = True, status = 200, json = Inr sample_usage\<rparr>
      else if token = js ''expired'' then
        Inr \<lparr>ok = False, status = 401,
             json = Inl (ErrorObject (js ''SyntaxError'') (js ''Unexpected token''))\<rparr>
      else Inl (ErrorObject (js ''TypeError'') (js ''fetch failed'')))"

section \<open>The usage table\<close>

text \<open>
  Modelled from the spec: the declaration of \<open>DailyStats\<close> in \<open>types.ts\<close> is not among
  the sources. The record follows the Daily Aggregate of the data model and the fields
  the tests fill in (\<open>input\<close> and \<open>output\<close> are \<open>stats_input\<close> and
  \<open>stats_output\<close> here); \<open>providerStats\<close>, which the table never reads, is left out. A
  \<open>Set<string>\<close> is the list of its elements in insertion order. Token counts are
  integers and \<open>cost\<close> is a real number: sums and quotients are exact in the model,
  where the code adds and divides doubles.
\<close>

record DailyStats =
  date :: jsstring
  models :: "jsstring list"
  providers :: "jsstring list"
  stats_input :: int
  stats_output :: int
  cacheWrite :: int
  cacheRead :: int
  reasoning :: int
  cost :: real

text \<open>
  \<open>Number.prototype.toString\<close> on an integer, and \<open>Number.prototype.toFixed\<close>: the
  integer \<open>n\<close> nearest to \<open>x * 10^f\<close> (the larger one at a tie), printed with at
  least \<open>f + 1\<close> digits and a point before the last \<open>f\<close>. The switch to exponent
  notation at \<open>10^21\<close> is left out.
\<close>

definition int_toString :: "int \<Rightarrow> jsstring" where
  "int_toString i = (if i < 0 then js ''-'' @ nat_toString (nat (- i)) else nat_toString (nat i))"

definition toFixed :: "real \<Rightarrow> nat \<Rightarrow> jsstring" where
  "toFixed x f =
     (let s = (if x < 0 then js ''-'' else []);
          n = nat \<lfloor>\<bar>x\<bar> * 10 ^ f + 1 / 2\<rfloor>;
          m = nat_toString n
      in if f \<noteq> 0 then
           (let m = (if length m \<le> f then replicate (f + 1 - length m) 0x30 @ m else m);
                k = length m
            in s @ take (k - f) m @ js ''.'' @ drop (k - f) m)
         else s @ m)"

definition formatNumber :: "int \<Rightarrow> jsstring" where
  "formatNumber num =
     (if num \<ge> 1000000 then toFixed (real_of_int num / 1000000) 1 @ js ''M''
      else if num \<ge> 1000 then toFixed (real_of_int num / 1000) 1 @ js ''K''
      else int_toString num)"

definition formatCost :: "real \<Rightarrow> jsstring" where
  "formatCost c = js ''$'' @ toFixed c 2"

definition padRight :: "jsstring \<Rightarrow> nat \<Rightarrow> jsstring" where
  "padRight str len = str @ replicate (len - length str) 0x20"

definition padLeft :: "jsstring \<Rightarrow> nat \<Rightarrow> jsstring" where
  "padLeft str len = replicate (len - length str) 0x20 @ str"

text \<open>\<open>String.prototype.repeat\<close>.\<close>

definition repeat :: "jsstring \<Rightarrow> nat \<Rightarrow> jsstring" where
  "repeat s n = concat (replicate n s)"

datatype TableWidthTier = narrow | medium | wide

definition getTableWidthTier :: "int \<Rightarrow> TableWidthTier" where
  "getTableWidthTier width =
     (if width < 105 then narrow else if width < 140 then medium else wide)"

text \<open>\<open>width ? getTableWidthTier(width) : "wide"\<close>: an absent width and the width 0 are falsy.\<close>

definition tier_of :: "int option \<Rightarrow> TableWidthTier" where
  "tier_of width =
     (case width of None \<Rightarrow> wide | Some w \<Rightarrow> if w = 0 then wide else getTableWidthTier w)"

definition colDate :: nat where "colDate = 12"
definition colModels :: "TableWidthTier \<Rightarrow> nat" where "colModels tier = (if tier = wide then 30 else 0)"
definition colTotal :: "TableWidthTier \<Rightarrow> nat" where "colTotal tier = (if tier \<noteq> narrow then 12 else 0)"
definition colCost :: nat where "colCost = 10"

text \<open>
  The border characters \<open>h\<close>, \<open>v\<close>, \<open>tl\<close>, \<open>tr\<close>, \<open>bl\<close>, \<open>br\<close>, \<open>ml\<close>,
  \<open>mr\<close>, \<open>mt\<close>, \<open>mb\<close> and \<open>mm\<close> of the source, each one code unit and named here
  with the suffix \<open>_ch\<close>, and the line feed.
\<close>

definition h_ch :: jsstring where "h_ch = [0x2500]"
definition v_ch :: jsstring where "v_ch = [0x2502]"
definition tl_ch :: jsstring where "tl_ch = [0x250C]"
definition tr_ch :: jsstring where "tr_ch = [0x2510]"
definition bl_ch :: jsstring where "bl_ch = [0x2514]"
definition br_ch :: jsstring where "br_ch = [0x2518]"
definition ml_ch :: jsstring where "ml_ch = [0x251C]"
definition mr_ch :: jsstring where "mr_ch = [0x2524]"
definition mt_ch :: jsstring where "mt_ch = [0x252C]"
definition mb_ch :: jsstring where "mb_ch = [0x2534]"
definition mm_ch :: jsstring where "mm_ch = [0x253C]"
definition nl :: jsstring where "nl = [0x0A]"

definition topLine :: "TableWidthTier \<Rightarrow> jsstring" where
  "topLine tier =
     (let topLine = tl_ch @ repeat h_ch colDate;
          topLine = (if tier = wide then topLine @ mt_ch @ repeat h_ch (colModels tier) else topLine);
          topLine = (if tier \<noteq> narrow then topLine @ mt_ch @ repeat h_ch (colTotal tier) else topLine)
      in topLine @ mt_ch @ repeat h_ch colCost @ tr_ch)"

definition midLine :: "TableWidthTier \<Rightarrow> jsstring" where
  "midLine tier =
     (let midLine = ml_ch @ repeat h_ch colDate;
          midLine = (if tier = wide then midLine @ mm_ch @ repeat h_ch (colModels tier) else midLine);
          midLine = (if tier \<noteq> narrow then midLine @ mm_ch @ repeat h_ch (colTotal tier) else midLine)
      in midLine @ mm_ch @ repeat h_ch colCost @ mr_ch)"

definition bottomLine :: "TableWidthTier \<Rightarrow> jsstring" where
  "bottomLine tier =
     (let bottomLine = bl_ch @ repeat h_ch colDate;
          bottomLine = (if tier = wide then bottomLine @ mb_ch @ repeat h_ch (colModels tier) else bottomLine);
          bottomLine = (if tier \<noteq> narrow then bottomLine @ mb_ch @ repeat h_ch (colTotal tier) else bottomLine)
      in bottomLine @ mb_ch @ repeat h_ch colCost @ br_ch)"

definition header :: "TableWidthTier \<Rightarrow> jsstring" where
  "header tier =
     (let header = v_ch @ padRight (js '' Date'') colDate;
          header = (if tier = wide then header @ v_ch @ padRight (js '' Models'') (colModels tier) else header);
          header = (if tier \<noteq> narrow then header @ v_ch @ padLeft (js ''Tokens '') (colTotal tier) else header)
      in header @ v_ch @ padLeft (js ''Cost '') colCost @ v_ch)"

text \<open>The row that the loop body builds for one date.\<close>

definition table_row :: "TableWidthTier \<Rightarrow> jsstring \<Rightarrow> DailyStats \<Rightarrow> jsstring" where
  "table_row tier d stats =
     (let combinedInput = stats_input stats + cacheRead stats + cacheWrite stats;
          totalTokens = combinedInput + stats_output stats;
          row = v_ch @ padRight (js '' '' @ d) colDate;
          row = (if tier = wide then
                   (let ms = sort (models stats);
                        firstModel = (case ms of
                                        [] \<Rightarrow> []
                                      | m0 # rest \<Rightarrow> if m0 = [] then [] else take 28 m0)
                    in row @ v_ch @ padRight (js '' '' @ firstModel) (colModels tier))
                 else row);
          row = (if tier \<noteq> narrow then
                   row @ v_ch @ padLeft (formatNumber totalTokens @ js '' '') (colTotal tier)
                 else row)
      in row @ v_ch @ padLeft (formatCost (cost stats) @ js '' '') colCost @ v_ch)"

text \<open>The variables that the loop over \<open>sortedDates\<close> updates.\<close>

record table_state =
  out_text :: jsstring
  totalInput :: int
  totalOutput :: int
  totalCost :: real

text \<open>
  The loop over \<open>sortedDates\<close>. \<open>dailyStats.get(date)!\<close> is the first entry under the
  key; on \<open>undefined\<close> the access to \<open>stats.input\<close> throws a \<open>TypeError\<close>.
\<close>

fun rows_loop ::
  "TableWidthTier \<Rightarrow> (jsstring \<times> DailyStats) list \<Rightarrow> jsstring list \<Rightarrow> table_state
     \<Rightarrow> thrown + table_state" where
  "rows_loop tier dailyStats [] st = Inr st"
| "rows_loop tier dailyStats (d # ds) st =
     (case map_of dailyStats d of
        None \<Rightarrow> Inl (ErrorObject (js ''TypeError'') (js ''undefined is not an object''))
      | Some stats \<Rightarrow>
          rows_loop tier dailyStats ds
            \<lparr>out_text = out_text st @ table_row tier d stats @ nl,
             totalInput = totalInput st + (stats_input stats + cacheRead stats + cacheWrite stats),
             totalOutput = totalOutput st + stats_output stats,
             totalCost = totalCost st + cost stats\<rparr>)"

definition totalRow :: "TableWidthTier \<Rightarrow> table_state \<Rightarrow> jsstring" where
  "totalRow tier st =
     (let grandTotal = totalInput st + totalOutput st;
          totalRow = v_ch @ padRight (js '' Total'') colDate;
          totalRow = (if tier = wide then totalRow @ v_ch @ repeat (js '' '') (colModels tier) else totalRow);
          totalRow = (if tier \<noteq> narrow then
                        totalRow @ v_ch @ padLeft (formatNumber grandTotal @ js '' '') (colTotal tier)
                      else totalRow)
      in totalRow @ v_ch @ padLeft (formatCost (totalCost st) @ js '' '') colCost @ v_ch)"

text \<open>
  \<open>renderUsageTable\<close>. The \<open>Map\<close> is the list of its entries in insertion order. The
  dates are sorted with \<open>localeCompare\<close>, which the model takes as the order of code
  units; on keys of the form YYYY-MM-DD the two agree.
\<close>

definition renderUsageTable :: "(jsstring \<times> DailyStats) list \<Rightarrow> int option \<Rightarrow> thrown + jsstring" where
  "renderUsageTable dailyStats width =
     (let sortedDates = sort (map fst dailyStats) in
      if length sortedDates = 0 then Inr (js ''No usage data'')
      else
        (let tier = tier_of width;
             output0 = topLine tier @ nl @ header tier @ nl @ midLine tier @ nl
         in case rows_loop tier dailyStats sortedDates
                   \<lparr>out_text = output0, totalInput = 0, totalOutput = 0, totalCost = 0\<rparr> of
              Inl e \<Rightarrow> Inl e
            | Inr st \<Rightarrow>
                Inr (out_text st @ midLine tier @ nl @ totalRow tier st @ nl @ bottomLine tier)))"

text \<open>\<open>String.prototype.includes\<close>, and the split of a text at its line feeds.\<close>

fun js_includes :: "jsstring \<Rightarrow> jsstring \<Rightarrow> bool" where
  "js_includes [] t = (t = [])"
| "js_includes (c # cs) t = (take (length t) (c # cs) = t \<or> js_includes cs t)"

fun split_lines :: "jsstring \<Rightarrow> jsstring list" where
  "split_lines [] = [[]]"
| "split_lines (c # cs) =
     (if c = 0x0A then [] # split_lines cs
      else (case split_lines cs of [] \<Rightarrow> [[c]] | l # ls \<Rightarrow> (c # l) # ls))"

definition stats_2025_02_11 :: DailyStats where
  "stats_2025_02_11 =
     \<lparr>date = js ''2025-02-11'', models = [js ''gpt-4o'', js ''claude-opus-4-5''],
      providers = [js ''openai'', js ''anthropic''],
      stats_input = 1000000, stats_output = 500000, cacheWrite = 0, cacheRead = 0, reasoning = 0,
      cost = 12345 / 100\<rparr>"

definition stats_2025_02_10 :: DailyStats where
  "stats_2025_02_10 =
     \<lparr>date = js ''2025-02-10'', models = [js ''claude-3-5-sonnet-20241022-long-name-x''],
      providers = [js ''anthropic''],
      stats_input = 100, stats_output = 50, cacheWrite = 0, cacheRead = 0, reasoning = 0,
      cost = 1099 / 100\<rparr>"

definition sample_stats :: "(jsstring \<times> DailyStats) list" where
  "sample_stats = [(js ''2025-02-11'', stats_2025_02_11), (js ''2025-02-10'', stats_2025_02_10)]"

text \<open>
  The text that the loop appends for a list of dates, and a set of models cut down to
  its alphabetically first element.
\<close>

definition rows_text :: "TableWidthTier \<Rightarrow> (jsstring \<times> DailyStats) list \<Rightarrow> jsstring list \<Rightarrow> jsstring" where
  "rows_text tier dailyStats ds =
     concat (map (\<lambda>d. case map_of dailyStats d of
                         None \<Rightarrow> []
                       | Some stats \<Rightarrow> table_row tier d stats @ nl) ds)"

definition first_model_only :: "jsstring list \<Rightarrow> jsstring list" where
  "first_model_only ms = (case sort ms of [] \<Rightarrow> [] | m0 # rest \<Rightarrow> [m0])"

text \<open>
  The table as the specification words it: each tier has a list of columns, and every
  line of the table is made of one cell per column. The wide tier has all four columns,
  the medium tier omits the models column, and the narrow tier omits the token column as
  well.
\<close>

datatype column = DateCol | ModelsCol | TokensCol | CostCol

definition tier_columns :: "TableWidthTier \<Rightarrow> column list" where
  "tier_columns t =
     (case t of
        wide \<Rightarrow> [DateCol, ModelsCol, TokensCol, CostCol]
      | medium \<Rightarrow> [DateCol, TokensCol, CostCol]
      | narrow \<Rightarrow> [DateCol, CostCol])"

fun column_width :: "column \<Rightarrow> nat" where
  "column_width DateCol = 12"
| "column_width ModelsCol = 30"
| "column_width TokensCol = 12"
| "column_width CostCol = 10"

fun header_cell :: "column \<Rightarrow> jsstring" where
  "header_cell DateCol = padRight (js '' Date'') 12"
| "header_cell ModelsCol = padRight (js '' Models'') 30"
| "header_cell TokensCol = padLeft (js ''Tokens '') 12"
| "header_cell CostCol = padLeft (js ''Cost '') 10"

text \<open>The tokens of a day: input, cache reads, cache writes and output.\<close>

definition day_tokens :: "DailyStats \<Rightarrow> int" where
  "day_tokens stats = stats_input stats + cacheRead stats + cacheWrite stats + stats_output stats"

fun row_cell :: "jsstring \<Rightarrow> DailyStats \<Rightarrow> column \<Rightarrow> jsstring" where
  "row_cell d stats DateCol = padRight (js '' '' @ d) 12"
| "row_cell d stats ModelsCol =
     padRight (js '' '' @ (case sort (models stats) of [] \<Rightarrow> [] | m0 # rest \<Rightarrow> take 28 m0)) 30"
| "row_cell d stats TokensCol = padLeft (formatNumber (day_tokens stats) @ js '' '') 12"
| "row_cell d stats CostCol = padLeft (formatCost (cost stats) @ js '' '') 10"

fun total_cell :: "int \<Rightarrow> real \<Rightarrow> column \<Rightarrow> jsstring" where
  "total_cell n c DateCol = padRight (js '' Total'') 12"
| "total_cell n c ModelsCol = repeat (js '' '') 30"
| "total_cell n c TokensCol = padLeft (formatNumber n @ js '' '') 12"
| "total_cell n c CostCol = padLeft (formatCost c @ js '' '') 10"

text \<open>A line of cells, each behind a vertical bar, closed by a vertical bar.\<close>

definition table_line :: "jsstring list \<Rightarrow> jsstring" where
  "table_line cells = concat (map (\<lambda>cell. v_ch @ cell) cells) @ v_ch"

text \<open>
  A border: a left corner, a run of dashes as wide as each column with a junction
  between two columns, and a right corner.
\<close>

definition border_line :: "jsstring \<Rightarrow> jsstring \<Rightarrow> jsstring \<Rightarrow> column list \<Rightarrow> jsstring" where
  "border_line left junction right cols =
     (case cols of
        [] \<Rightarrow> left @ right
      | c # cs \<Rightarrow>
          left @ repeat h_ch (column_width c) @
          concat (map (\<lambda>c. junction @ repeat h_ch (column_width c)) cs) @ right)"

text \<open>The entries of the aggregate in the order of their dates.\<close>

definition entries_at :: "(jsstring \<times> DailyStats) list \<Rightarrow> jsstring list \<Rightarrow> (jsstring \<times> DailyStats) list" where
  "entries_at dailyStats ds =
     concat (map (\<lambda>d. case map_of dailyStats d of None \<Rightarrow> [] | Some stats \<Rightarrow> [(d, stats)]) ds)"

definition sorted_entries :: "(jsstring \<times> DailyStats) list \<Rightarrow> (jsstring \<times> DailyStats) list" where
  "sorted_entries dailyStats = entries_at dailyStats (sort (map fst dailyStats))"

section \<open>Properties of the incremental loader\<close>

lemma mantissa_shift_small: "n < 9007199254740992 \<Longrightarrow> mantissa_shift n = 0"
  by simp

lemma round_to_double_small: "n < 9007199254740992 \<Longrightarrow> round_to_double n = n"
  by (simp add: round_to_double_def mantissa_shift_small del: mantissa_shift.simps)

lemma toNumber_safe: "\<bar>i\<bar> \<le> 9007199254740991 \<Longrightarrow> toNumber i = i"
  by (simp add: toNumber_def round_to_double_small)

lemma toNumber_far: "toNumber 9007199254740993 = 9007199254740992"
  by (simp add: toNumber_def round_to_double_def Let_def)

lemma maxTimestamp_loop_ge: "m \<le> maxTimestamp_loop m rows"
proof (induction rows arbitrary: m)
  case Nil
  show ?case by simp
next
  case (Cons r rows)
  have "m \<le> (if time_created r > m then time_created r else m)" by simp
  also have "\<dots> \<le> maxTimestamp_loop (if time_created r > m then time_created r else m) rows"
    by (rule Cons.IH)
  finally show ?case by simp
qed

lemma maxTimestamp_loop_bound:
  "r \<in> set rows \<Longrightarrow> time_created r \<le> maxTimestamp_loop m rows"
proof (induction rows arbitrary: m)
  case Nil
  then show ?case by simp
next
  case (Cons x rows)
  let ?m' = "if time_created x > m then time_created x else m"
  show ?case
  proof (cases "r = x")
    case True
    have "time_created x \<le> ?m'" by simp
    also have "\<dots> \<le> maxTimestamp_loop ?m' rows" by (rule maxTimestamp_loop_ge)
    finally show ?thesis using True by simp
  next
    case False
    with Cons.prems have "r \<in> set rows" by simp
    then have "time_created r \<le> maxTimestamp_loop ?m' rows" by (rule Cons.IH)
    then show ?thesis by simp
  qed
qed

lemma maxTimestamp_loop_Max:
  "maxTimestamp_loop m rows = Max (set (m # map time_created rows))"
proof (induction rows arbitrary: m)
  case Nil
  show ?case by simp
next
  case (Cons r rows)
  let ?m' = "if time_created r > m then time_created r else m"
  have "maxTimestamp_loop m (r # rows) = Max (set (?m' # map time_created rows))"
    using Cons.IH [of ?m'] by simp
  also have "\<dots> = Max (insert (max m (time_created r)) (set (map time_created rows)))"
    by (simp add: max_def)
  also have "\<dots> = Max (set (m # map time_created (r # rows)))"
  proof (cases "rows = []")
    case True
    then show ?thesis by (simp add: max.commute)
  next
    case False
    then show ?thesis by (simp add: max.assoc)
  qed
  finally show ?case .
qed

lemma time_created_read_row: "time_created (read_row r) = toNumber (col_time_created r)"
  by (simp add: read_row_def)

lemma data_read_row: "data (read_row r) = col_data r"
  by (simp add: read_row_def)

lemma map_time_created_read_row:
  "map time_created (map read_row rows) = map (\<lambda>row. toNumber (col_time_created row)) rows"
  by (simp add: time_created_read_row)

text \<open>
  Where every stored time is a safe integer, the rows come back with their times
  unchanged, and no stored time lies above the cursor that a query returns.
\<close>

lemma no_row_above_new_cursor:
  assumes "\<forall>r\<in>set rows. \<bar>col_time_created r\<bar> \<le> 9007199254740991"
  shows "filter (\<lambda>r. col_time_created r >
                      maxTimestamp_loop c (map read_row (filter (\<lambda>r. col_time_created r > c) rows)))
           rows = []"
proof -
  let ?q = "map read_row (filter (\<lambda>r. col_time_created r > c) rows)"
  have "\<not> col_time_created r > maxTimestamp_loop c ?q" if r: "r \<in> set rows" for r
  proof (cases "col_time_created r > c")
    case True
    with r have "read_row r \<in> set ?q" by simp
    then have "time_created (read_row r) \<le> maxTimestamp_loop c ?q"
      by (rule maxTimestamp_loop_bound)
    moreover from assms r have "toNumber (col_time_created r) = col_time_created r"
      by (simp add: toNumber_safe)
    ultimately show ?thesis by (simp add: time_created_read_row)
  next
    case False
    moreover have "c \<le> maxTimestamp_loop c ?q" by (rule maxTimestamp_loop_ge)
    ultimately show ?thesis by simp
  qed
  then show ?thesis by (simp add: filter_empty_conv)
qed

lemma loadMessagesIncremental_returns:
  "\<exists>r. returned (loadMessagesIncremental s c f) = Inr r"
  by (simp add: loadMessagesIncremental_def split: sum.splits)

lemma loadMessagesIncremental_cases:
  "returned (loadMessagesIncremental s c f) =
     (case loadMessagesIncremental_try s c f of
        Inr r \<Rightarrow> Inr r
      | Inl e \<Rightarrow> Inr \<lparr>messages = [], cursor = \<lparr>lastTimestamp = lastTimestamp c\<rparr>\<rparr>)"
  by (simp add: loadMessagesIncremental_def split: sum.splits)

lemma try_failure_any_filter:
  "loadMessagesIncremental_try s c f = Inl e \<Longrightarrow> loadMessagesIncremental_try s c f' = Inl e"
  by (auto simp: loadMessagesIncremental_try_def split: sum.splits)

lemma cursor_eta: "\<lparr>lastTimestamp = lastTimestamp c\<rparr> = (c :: CursorState)"
  by (cases c) simp

lemma try_second_call:
  assumes "safe_timestamps s" and "loadMessagesIncremental_try s c f = Inr r"
  shows "loadMessagesIncremental_try s (cursor r) f' = Inr \<lparr>messages = [], cursor = cursor r\<rparr>"
proof (cases s)
  case (NoDatabase e)
  with assms(2) show ?thesis by (simp add: loadMessagesIncremental_try_def openDb_def)
next
  case (NoMessageTable e)
  with assms(2) show ?thesis
    by (simp add: loadMessagesIncremental_try_def openDb_def query_all_def)
next
  case (Database rows)
  let ?q = "map read_row (filter (\<lambda>r. col_time_created r > lastTimestamp c) rows)"
  from assms(1) Database have safe: "\<forall>r\<in>set rows. \<bar>col_time_created r\<bar> \<le> 9007199254740991"
    by (simp add: safe_timestamps_def list_all_iff)
  from assms(2) Database have c': "lastTimestamp (cursor r) = maxTimestamp_loop (lastTimestamp c) ?q"
    by (auto simp: loadMessagesIncremental_try_def openDb_def query_all_def split: sum.splits)
  have "filter (\<lambda>r'. col_time_created r' > lastTimestamp (cursor r)) rows = []"
    unfolding c' using safe by (rule no_row_above_new_cursor)
  with Database show ?thesis
    by (simp add: loadMessagesIncremental_try_def openDb_def query_all_def)
qed

lemmas loader_fixture_defs =
  loadMessagesIncremental_def loadMessagesIncremental_try_def openDb_def query_all_def
  read_row_def createCursor_def insertMessage_def rowToMessage_def isValidMessage_def
  assistantData_def userData_def asMessage_def js_def

text \<open>
  Claim C1 says that, for every store, a second call with the returned cursor gives no
  message. The query compares the stored integers, and the cursor is made of the doubles
  they are read as. A record stored at \<open>2^53 + 1\<close> is read as \<open>2^53\<close>: the first call
  returns it with the cursor \<open>2^53\<close>, and the second call, whose query asks for rows
  above \<open>2^53\<close>, returns it again.
\<close>

theorem rounded_timestamp_is_loaded_again:
  "returned (loadMessagesIncremental far_store createCursor None) =
     Inr \<lparr>messages = [asMessage ''asst-far'' ''ses-1'' (assistantData (js ''anthropic'') 0)],
          cursor = \<lparr>lastTimestamp = 9007199254740992\<rparr>\<rparr> \<and>
   returned (loadMessagesIncremental far_store \<lparr>lastTimestamp = 9007199254740992\<rparr> None) =
     Inr \<lparr>messages = [asMessage ''asst-far'' ''ses-1'' (assistantData (js ''anthropic'') 0)],
          cursor = \<lparr>lastTimestamp = 9007199254740992\<rparr>\<rparr>"
  by (simp add: loader_fixture_defs far_store_def toNumber_far)

text \<open>
  Claim C1 as amended (idempotent incremental load): for every store whose creation times
  are safe integers, when \<open>loadMessagesIncremental\<close> has returned a result with cursor
  \<open>c'\<close>, a second call with \<open>c'\<close> on the same store returns no message and the cursor
  \<open>c'\<close> again. This holds whether the first call read the store or went through its
  \<open>catch\<close> clause, and for any provider filter of the second call.
\<close>

theorem incremental_load_idempotent:
  assumes "safe_timestamps s" and "returned (loadMessagesIncremental s c f) = Inr r"
  shows "returned (loadMessagesIncremental s (cursor r) f') =
           Inr \<lparr>messages = [], cursor = cursor r\<rparr>"
proof (cases "loadMessagesIncremental_try s c f")
  case (Inr r')
  with assms(2) have "r' = r" by (simp add: loadMessagesIncremental_cases)
  with Inr assms(1)
  have "loadMessagesIncremental_try s (cursor r) f' = Inr \<lparr>messages = [], cursor = cursor r\<rparr>"
    by (simp add: try_second_call)
  then show ?thesis by (simp add: loadMessagesIncremental_cases)
next
  case (Inl e)
  with assms(2) have r: "r = \<lparr>messages = [], cursor = \<lparr>lastTimestamp = lastTimestamp c\<rparr>\<rparr>"
    by (simp add: loadMessagesIncremental_cases)
  from Inl have "loadMessagesIncremental_try s c f' = Inl e"
    by (rule try_failure_any_filter)
  with r show ?thesis by (simp add: loadMessagesIncremental_cases cursor_eta)
qed

theorem incremental_load_idempotent_witness:
  "returned (loadMessagesIncremental mixed_store createCursor None) =
     Inr \<lparr>messages = [asMessage ''asst-1'' ''ses-1'' (assistantData (js ''anthropic'') 2000)],
          cursor = \<lparr>lastTimestamp = 3000\<rparr>\<rparr> \<and>
   returned (loadMessagesIncremental mixed_store \<lparr>lastTimestamp = 3000\<rparr> None) =
     Inr \<lparr>messages = [], cursor = \<lparr>lastTimestamp = 3000\<rparr>\<rparr>"
proof -
  have safe: "safe_timestamps mixed_store"
    by (simp add: safe_timestamps_def mixed_store_def insertMessage_def)
  have first: "returned (loadMessagesIncremental mixed_store createCursor None) =
     Inr \<lparr>messages = [asMessage ''asst-1'' ''ses-1'' (assistantData (js ''anthropic'') 2000)],
          cursor = \<lparr>lastTimestamp = 3000\<rparr>\<rparr>"
    by (simp add: loader_fixture_defs mixed_store_def toNumber_safe)
  from incremental_load_idempotent [OF safe first, of None] first show ?thesis by simp
qed

text \<open>
  Claim C2 (failure atomicity). When opening the database throws, when the query throws,
  or when a row's JSON text fails to parse, \<open>loadMessagesIncremental\<close> resolves (it
  does not reject) with no message and a cursor that has the input's \<open>lastTimestamp\<close>,
  and it has written one line to \<open>console.error\<close> that names the failure.
\<close>

theorem incremental_failure_keeps_cursor:
  assumes "openDb s = Inl e
         \<or> (\<exists>db. openDb s = Inr db \<and>
                  query_all db (\<lambda>r. col_time_created r > lastTimestamp c) = Inl e)
         \<or> (\<exists>db rows. openDb s = Inr db
               \<and> query_all db (\<lambda>r. col_time_created r > lastTimestamp c) = Inr rows
               \<and> map_throwing rowToMessage rows = Inl e)"
  shows "loadMessagesIncremental s c f =
           \<lparr>returned = Inr \<lparr>messages = [], cursor = \<lparr>lastTimestamp = lastTimestamp c\<rparr>\<rparr>,
            logged = [js ''Error in incremental load: '' @ thrown_toString e]\<rparr>"
proof -
  from assms have "loadMessagesIncremental_try s c f = Inl e"
    by (auto simp: loadMessagesIncremental_try_def)
  then show ?thesis by (simp add: loadMessagesIncremental_def)
qed

theorem incremental_failure_keeps_cursor_witness:
  "loadMessagesIncremental
     (NoDatabase (ErrorObject (js ''SQLiteError'') (js ''unable to open database file'')))
     \<lparr>lastTimestamp = 2000\<rparr> None =
   \<lparr>returned = Inr \<lparr>messages = [], cursor = \<lparr>lastTimestamp = 2000\<rparr>\<rparr>,
    logged = [js ''Error in incremental load: SQLiteError: unable to open database file'']\<rparr>"
proof -
  have h: "openDb (NoDatabase (ErrorObject (js ''SQLiteError'') (js ''unable to open database file'')))
             = Inl (ErrorObject (js ''SQLiteError'') (js ''unable to open database file''))"
    by (simp add: openDb_def)
  show ?thesis
    using incremental_failure_keeps_cursor [of _ _ "\<lparr>lastTimestamp = 2000\<rparr>" None, OF disjI1, OF h]
    by (simp add: js_def)
qed

lemma map_throwing_all_parse:
  "\<forall>x\<in>set xs. \<not> isl (f x) \<Longrightarrow> \<exists>ys. map_throwing f xs = Inr ys"
proof (induction xs)
  case Nil
  show ?case by simp
next
  case (Cons x xs)
  then obtain ys where ys: "map_throwing f xs = Inr ys" by auto
  from Cons.prems obtain y where "f x = Inr y" by (cases "f x") auto
  with ys show ?case by simp
qed

lemma rowToMessage_isl: "isl (rowToMessage row) = isl (data row)"
  by (simp add: rowToMessage_def split: sum.splits)

text \<open>
  Claim C3 says that the returned checkpoint is the larger of the input checkpoint and
  the largest creation time among the accepted records, so that a rejected record never
  contributes. The loop that raises \<open>maxTimestamp\<close> runs over \<open>rows\<close>, every row the
  query returned, not over the filtered \<open>messages\<close>. With an accepted record at 2000
  and a user record at 3000 the call returns the cursor 3000, where the claim gives 2000.
\<close>

theorem checkpoint_counts_rejected_rows:
  "returned (loadMessagesIncremental mixed_store createCursor None) =
     Inr \<lparr>messages = [asMessage ''asst-1'' ''ses-1'' (assistantData (js ''anthropic'') 2000)],
          cursor = \<lparr>lastTimestamp = 3000\<rparr>\<rparr> \<and>
   checkpoint_over_accepted (lastTimestamp createCursor) None
     [insertMessage ''asst-1'' ''ses-1'' (assistantData (js ''anthropic'') 2000) 2000,
      insertMessage ''user-1'' ''ses-1'' userData 3000] = 2000"
  by (simp add: loader_fixture_defs mixed_store_def toNumber_safe
        checkpoint_over_accepted_def accepted_row_def)

text \<open>
  Claim C3 as amended: when the read succeeds (every row after the checkpoint parses),
  the returned checkpoint is the larger of the input checkpoint and the largest
  \<open>time_created\<close>, as the number it is read as, among all rows after the checkpoint,
  whether or not they pass the validity filter. Where the creation times are safe
  integers, the number read is the stored integer.
\<close>

theorem checkpoint_is_max_of_queried_rows:
  assumes "\<forall>row\<in>set rows. col_time_created row > lastTimestamp c \<longrightarrow> \<not> isl (col_data row)"
  shows "\<exists>r. loadMessagesIncremental (Database rows) c f = \<lparr>returned = Inr r, logged = []\<rparr> \<and>
             lastTimestamp (cursor r) =
               Max (set (lastTimestamp c #
                         map (\<lambda>row. toNumber (col_time_created row))
                             (filter (\<lambda>row. col_time_created row > lastTimestamp c) rows))) \<and>
             (safe_timestamps (Database rows) \<longrightarrow>
                lastTimestamp (cursor r) =
                  Max (set (lastTimestamp c #
                            map col_time_created
                                (filter (\<lambda>row. col_time_created row > lastTimestamp c) rows))))"
proof -
  let ?s = "filter (\<lambda>row. col_time_created row > lastTimestamp c) rows"
  let ?q = "map read_row ?s"
  from assms have "\<forall>row\<in>set ?q. \<not> isl (rowToMessage row)"
    by (auto simp: rowToMessage_isl data_read_row)
  then obtain msgs where "map_throwing rowToMessage ?q = Inr msgs"
    using map_throwing_all_parse by blast
  then have run: "loadMessagesIncremental (Database rows) c f =
      \<lparr>returned = Inr \<lparr>messages = filter (\<lambda>msg. isValidMessage msg f) msgs,
                       cursor = \<lparr>lastTimestamp = maxTimestamp_loop (lastTimestamp c) ?q\<rparr>\<rparr>,
       logged = []\<rparr>"
    by (simp add: loadMessagesIncremental_def loadMessagesIncremental_try_def openDb_def
        query_all_def)
  have read: "maxTimestamp_loop (lastTimestamp c) ?q =
      Max (set (lastTimestamp c # map (\<lambda>row. toNumber (col_time_created row)) ?s))"
    by (simp only: maxTimestamp_loop_Max map_time_created_read_row)
  have stored: "map (\<lambda>row. toNumber (col_time_created row)) ?s = map col_time_created ?s"
    if "safe_timestamps (Database rows)"
    using that by (auto simp: safe_timestamps_def list_all_iff toNumber_safe)
  show ?thesis
    using run read stored by auto
qed

theorem checkpoint_is_max_of_queried_rows_witness:
  "(\<exists>r. loadMessagesIncremental mixed_store createCursor None = \<lparr>returned = Inr r, logged = []\<rparr> \<and>
       lastTimestamp (cursor r) = 3000) \<and>
   (\<exists>r. loadMessagesIncremental far_store createCursor None = \<lparr>returned = Inr r, logged = []\<rparr> \<and>
       lastTimestamp (cursor r) = 9007199254740992)"
proof -
  have h: "\<forall>row\<in>set [insertMessage ''asst-1'' ''ses-1'' (assistantData (js ''anthropic'') 2000) 2000,
                 insertMessage ''user-1'' ''ses-1'' userData 3000].
      col_time_created row > lastTimestamp createCursor \<longrightarrow> \<not> isl (col_data row)"
    by (simp add: insertMessage_def)
  have k: "\<forall>row\<in>set [insertMessage ''asst-far'' ''ses-1'' (assistantData (js ''anthropic'') 0)
                        9007199254740993].
      col_time_created row > lastTimestamp createCursor \<longrightarrow> \<not> isl (col_data row)"
    by (simp add: insertMessage_def)
  from checkpoint_is_max_of_queried_rows [OF h, of None]
  have a: "\<exists>r. loadMessagesIncremental mixed_store createCursor None = \<lparr>returned = Inr r, logged = []\<rparr> \<and>
       lastTimestamp (cursor r) = 3000"
    by (auto simp: mixed_store_def insertMessage_def createCursor_def toNumber_safe)
  from checkpoint_is_max_of_queried_rows [OF k, of None]
  have b: "\<exists>r. loadMessagesIncremental far_store createCursor None = \<lparr>returned = Inr r, logged = []\<rparr> \<and>
       lastTimestamp (cursor r) = 9007199254740992"
    by (auto simp: far_store_def insertMessage_def createCursor_def toNumber_far)
  from a b show ?thesis by (rule conjI)
qed

lemma step_monotone:
  "returned (loadMessagesIncremental s c f) = Inr r \<Longrightarrow> lastTimestamp c \<le> lastTimestamp (cursor r)"
  by (auto simp: loadMessagesIncremental_cases loadMessagesIncremental_try_def
      maxTimestamp_loop_ge split: sum.splits)

lemma successive_cursors_length: "length (successive_cursors calls c) = length calls"
proof (induction calls arbitrary: c)
  case Nil
  show ?case by simp
next
  case (Cons call calls)
  obtain s f where call: "call = (s, f)" by (cases call)
  obtain r where "returned (loadMessagesIncremental s c f) = Inr r"
    using loadMessagesIncremental_returns by blast
  with call Cons.IH show ?case by simp
qed

lemma successive_cursors_sorted:
  "sorted (map lastTimestamp (c # successive_cursors calls c))"
proof (induction calls arbitrary: c)
  case Nil
  show ?case by simp
next
  case (Cons call calls)
  obtain s f where call: "call = (s, f)" by (cases call)
  obtain r where r: "returned (loadMessagesIncremental s c f) = Inr r"
    using loadMessagesIncremental_returns by blast
  then have le: "lastTimestamp c \<le> lastTimestamp (cursor r)" by (rule step_monotone)
  have IH: "sorted (map lastTimestamp (cursor r # successive_cursors calls (cursor r)))"
    by (rule Cons.IH)
  then have "\<forall>t\<in>set (map lastTimestamp (successive_cursors calls (cursor r))).
               lastTimestamp (cursor r) \<le> t"
    by simp
  with le have "\<forall>t\<in>set (map lastTimestamp (cursor r # successive_cursors calls (cursor r))).
               lastTimestamp c \<le> t"
    by auto
  with IH call r show ?case by simp
qed

text \<open>
  Claim C4 (cursor monotonicity). For every store, readable or not, every cursor and
  every filter, the call resolves with a cursor whose \<open>lastTimestamp\<close> is at least the
  input's; and along any sequence of successive calls, each taking the cursor of the one
  before, every call returns and the checkpoints never decrease.
\<close>

theorem cursor_never_decreases:
  "(\<exists>r. returned (loadMessagesIncremental s c f) = Inr r \<and>
        lastTimestamp c \<le> lastTimestamp (cursor r)) \<and>
   length (successive_cursors calls c) = length calls \<and>
   sorted (map lastTimestamp (c # successive_cursors calls c))"
proof -
  obtain r where r: "returned (loadMessagesIncremental s c f) = Inr r"
    using loadMessagesIncremental_returns by blast
  then have "lastTimestamp c \<le> lastTimestamp (cursor r)" by (rule step_monotone)
  with r have "\<exists>r. returned (loadMessagesIncremental s c f) = Inr r \<and>
        lastTimestamp c \<le> lastTimestamp (cursor r)" by blast
  then show ?thesis
    using successive_cursors_length [of calls c] successive_cursors_sorted [of c calls]
    by blast
qed

theorem cursor_never_decreases_witness:
  "successive_cursors [(mixed_store, None),
                       (NoDatabase (ErrorObject (js ''SQLiteError'') (js ''unable to open database file'')), None),
                       (filter_store, Some (js ''anthropic''))] createCursor =
     [\<lparr>lastTimestamp = 3000\<rparr>, \<lparr>lastTimestamp = 3000\<rparr>, \<lparr>lastTimestamp = 3000\<rparr>] \<and>
   sorted (map lastTimestamp
     (createCursor #
      successive_cursors [(mixed_store, None),
                          (NoDatabase (ErrorObject (js ''SQLiteError'') (js ''unable to open database file'')), None),
                          (filter_store, Some (js ''anthropic''))] createCursor))"
proof -
  have "successive_cursors [(mixed_store, None),
                       (NoDatabase (ErrorObject (js ''SQLiteError'') (js ''unable to open database file'')), None),
                       (filter_store, Some (js ''anthropic''))] createCursor =
     [\<lparr>lastTimestamp = 3000\<rparr>, \<lparr>lastTimestamp = 3000\<rparr>, \<lparr>lastTimestamp = 3000\<rparr>]"
    by (simp add: loadMessagesIncremental_def loadMessagesIncremental_try_def openDb_def
        query_all_def read_row_def toNumber_safe mixed_store_def filter_store_def
        createCursor_def insertMessage_def rowToMessage_def)
  then show ?thesis
    using cursor_never_decreases [of mixed_store createCursor None
        "[(mixed_store, None),
          (NoDatabase (ErrorObject (js ''SQLiteError'') (js ''unable to open database file'')), None),
          (filter_store, Some (js ''anthropic''))]"]
    by blast
qed

section \<open>Properties of the validity filter\<close>

lemma isValidMessage_sound:
  "isValidMessage m f \<Longrightarrow> role m \<noteq> js ''user'' \<and> tokens m \<noteq> None"
  by (simp add: isValidMessage_def split: if_splits)

lemma keep_message_sound:
  "keep_message f (Some m) \<Longrightarrow> role m \<noteq> js ''user'' \<and> tokens m \<noteq> None"
  by (simp add: keep_message_def split: if_splits)

lemma present_filter_member:
  "m \<in> set (present (filter p xs)) \<Longrightarrow> p (Some m)"
  by (induction xs rule: present.induct) (auto split: if_splits)

lemma loadMessages_member:
  assumes "returned (loadMessages s f) = Inr ms" and "m \<in> set ms"
  shows "isValidMessage m f"
  using assms
  by (auto simp: loadMessages_def loadMessages_try_def split: sum.splits)

lemma loadRecentMessages_member:
  assumes "returned (loadRecentMessages now s h f) = Inr ms" and "m \<in> set ms"
  shows "isValidMessage m f"
  using assms
  by (auto simp: loadRecentMessages_def loadRecentMessages_try_def Let_def split: sum.splits)

lemma loadMessagesIncremental_member:
  assumes "returned (loadMessagesIncremental s c f) = Inr r" and "m \<in> set (messages r)"
  shows "isValidMessage m f"
  using assms
  by (auto simp: loadMessagesIncremental_def loadMessagesIncremental_try_def split: sum.splits)

lemma loadMessages_files_member:
  assumes "returned (loadMessages_files d f) = Inr ms" and "m \<in> set ms"
  shows "keep_message f (Some m)"
  using assms
  by (auto simp: loadMessages_files_def loadMessages_files_try_def Let_def
      dest: present_filter_member split: sum.splits)

text \<open>
  Claim C5 (validity filter). On every load path (\<open>loadMessages\<close>,
  \<open>loadRecentMessages\<close> and \<open>loadMessagesIncremental\<close> over the database, and
  \<open>loadMessages\<close> over the file tree), for every store and every filter, no message of
  the returned list has the role \<open>user\<close> and none lacks its token breakdown.
\<close>

theorem validity_filter_every_path:
  assumes "returned (loadMessages s f) = Inr ms
         \<or> returned (loadRecentMessages now s h f) = Inr ms
         \<or> (\<exists>r. returned (loadMessagesIncremental s c f) = Inr r \<and> messages r = ms)
         \<or> returned (loadMessages_files d f) = Inr ms"
      and "m \<in> set ms"
  shows "role m \<noteq> js ''user'' \<and> tokens m \<noteq> None"
proof -
  from assms have "isValidMessage m f \<or> keep_message f (Some m)"
    using loadMessages_member loadRecentMessages_member loadMessagesIncremental_member
      loadMessages_files_member
    by blast
  then show ?thesis
    using isValidMessage_sound keep_message_sound by blast
qed

lemmas fixture_defs =
  openDb_def query_all_def read_row_def toNumber_safe filter_store_def filter_dir_def insertMessage_def rowToMessage_def
  isValidMessage_def keep_message_def assistantData_def userData_def noTokensData_def
  asMessage_def js_def endsWith_def providerId_of_def toLowerCase_def lowerChar_def

theorem validity_filter_every_path_witness:
  "returned (loadMessages filter_store None) =
     Inr [asMessage ''asst-1'' ''ses-1'' (assistantData (js ''anthropic'') 2000)] \<and>
   returned (loadRecentMessages 5000 filter_store (Some 1) None) =
     Inr [asMessage ''asst-1'' ''ses-1'' (assistantData (js ''anthropic'') 2000)] \<and>
   returned (loadMessagesIncremental filter_store createCursor None) =
     Inr \<lparr>messages = [asMessage ''asst-1'' ''ses-1'' (assistantData (js ''anthropic'') 2000)],
          cursor = \<lparr>lastTimestamp = 2000\<rparr>\<rparr> \<and>
   returned (loadMessages_files filter_dir None) =
     Inr [asMessage ''asst-1'' ''ses-1'' (assistantData (js ''anthropic'') 2000)] \<and>
   role (asMessage ''asst-1'' ''ses-1'' (assistantData (js ''anthropic'') 2000)) \<noteq> js ''user'' \<and>
   tokens (asMessage ''asst-1'' ''ses-1'' (assistantData (js ''anthropic'') 2000)) \<noteq> None"
proof -
  have a: "returned (loadMessages filter_store None) =
     Inr [asMessage ''asst-1'' ''ses-1'' (assistantData (js ''anthropic'') 2000)]"
    by (simp add: loadMessages_def loadMessages_try_def fixture_defs)
  have b: "returned (loadRecentMessages 5000 filter_store (Some 1) None) =
     Inr [asMessage ''asst-1'' ''ses-1'' (assistantData (js ''anthropic'') 2000)]"
    by (simp add: loadRecentMessages_def loadRecentMessages_try_def fixture_defs)
  have c: "returned (loadMessagesIncremental filter_store createCursor None) =
     Inr \<lparr>messages = [asMessage ''asst-1'' ''ses-1'' (assistantData (js ''anthropic'') 2000)],
          cursor = \<lparr>lastTimestamp = 2000\<rparr>\<rparr>"
    by (simp add: loadMessagesIncremental_def loadMessagesIncremental_try_def createCursor_def
        fixture_defs)
  have d: "returned (loadMessages_files filter_dir None) =
     Inr [asMessage ''asst-1'' ''ses-1'' (assistantData (js ''anthropic'') 2000)]"
    by (simp add: loadMessages_files_def loadMessages_files_try_def fixture_defs)
  have "role (asMessage ''asst-1'' ''ses-1'' (assistantData (js ''anthropic'') 2000)) \<noteq> js ''user'' \<and>
   tokens (asMessage ''asst-1'' ''ses-1'' (assistantData (js ''anthropic'') 2000)) \<noteq> None"
    using validity_filter_every_path [OF disjI1, OF a, of "asMessage ''asst-1'' ''ses-1'' (assistantData (js ''anthropic'') 2000)"]
    by simp
  with a b c d show ?thesis by blast
qed

text \<open>
  Claim C6 says that the provider match ignores letter case on both sides. The code
  lower-cases the record's provider id and compares it with the filter as given: the
  record of provider \<open>anthropic\<close> passes the filter \<open>anthropic\<close> and is rejected by
  the filter \<open>Anthropic\<close>, which differs from its id in letter case only. Both loaders
  do the same.
\<close>

theorem provider_filter_case_of_filter_counts:
  "toLowerCase (providerId_of (asMessage ''asst-1'' ''ses-1'' (assistantData (js ''anthropic'') 2000)))
     = toLowerCase (js ''Anthropic'') \<and>
   isValidMessage (asMessage ''asst-1'' ''ses-1'' (assistantData (js ''anthropic'') 2000))
     (Some (js ''anthropic'')) \<and>
   \<not> isValidMessage (asMessage ''asst-1'' ''ses-1'' (assistantData (js ''anthropic'') 2000))
     (Some (js ''Anthropic'')) \<and>
   \<not> keep_message (Some (js ''Anthropic''))
     (Some (asMessage ''asst-1'' ''ses-1'' (assistantData (js ''anthropic'') 2000)))"
  by (simp add: fixture_defs)

text \<open>
  Claim C6 as amended: for a record that passes the role and token tests and a non-empty
  filter, the record is accepted exactly when its provider id (\<open>model.providerID\<close>,
  else \<open>providerID\<close>, else \<open>unknown\<close>), once lower-cased, equals the filter as given.
  So the match ignores the case of the record's id, and, for a filter that is already
  in lower case, it is a case-insensitive comparison of the two.
\<close>

theorem provider_filter_lowercases_record_only:
  assumes "role msg \<noteq> js ''user''" and "tokens msg \<noteq> None" and "f \<noteq> []"
  shows "isValidMessage msg (Some f) = (toLowerCase (providerId_of msg) = f) \<and>
         keep_message (Some f) (Some msg) = (toLowerCase (providerId_of msg) = f) \<and>
         (toLowerCase f = f \<longrightarrow>
            isValidMessage msg (Some f) = (toLowerCase (providerId_of msg) = toLowerCase f))"
  using assms by (simp add: isValidMessage_def keep_message_def)

theorem provider_filter_lowercases_record_only_witness:
  "isValidMessage (asMessage ''asst-1'' ''ses-1'' (assistantData (js ''AnThRoPiC'') 2000))
     (Some (js ''anthropic'')) \<and>
   keep_message (Some (js ''anthropic''))
     (Some (asMessage ''asst-1'' ''ses-1'' (assistantData (js ''AnThRoPiC'') 2000)))"
  using provider_filter_lowercases_record_only
    [of "asMessage ''asst-1'' ''ses-1'' (assistantData (js ''AnThRoPiC'') 2000)" "js ''anthropic''"]
  by (simp add: fixture_defs)

section \<open>Properties of the Codex quota loader\<close>

lemma snapshots_of_nonempty: "snapshots_of d \<noteq> []"
  by (simp add: snapshots_of_def Let_def)

lemma snapshots_of_no_window:
  "windows_of d = [] \<Longrightarrow>
   snapshots_of d = [\<lparr>source = js ''codex'', label = js ''Codex'', used = 0, resetAt = None,
                      error = Some (js ''No rate limit data'')\<rparr>]"
  by (auto simp: snapshots_of_def windows_of_def Let_def split: option.splits)

lemma snapshots_of_used:
  "windows_of d \<noteq> [] \<Longrightarrow>
   map used (snapshots_of d) = map (\<lambda>w. used_percent w / 100) (windows_of d)"
  by (simp add: snapshots_of_def windows_of_def Let_def split: option.splits)

lemma snapshots_of_resetAt:
  "windows_of d \<noteq> [] \<Longrightarrow>
   map resetAt (snapshots_of d) = map (\<lambda>w. Some (reset_at w)) (windows_of d)"
  by (simp add: snapshots_of_def windows_of_def Let_def split: option.splits)

lemma snapshots_of_error:
  "windows_of d \<noteq> [] \<Longrightarrow> s \<in> set (snapshots_of d) \<Longrightarrow> error s = None"
  by (auto simp: snapshots_of_def windows_of_def Let_def split: option.splits)

lemma used_from_window:
  assumes "windows_of d \<noteq> []" and "s \<in> set (snapshots_of d)"
  shows "\<exists>w\<in>set (windows_of d). used s = used_percent w / 100"
proof -
  from assms(2) have "used s \<in> set (map used (snapshots_of d))" by simp
  with snapshots_of_used [OF assms(1)]
  have "used s \<in> set (map (\<lambda>w. used_percent w / 100) (windows_of d))"
    by simp
  then show ?thesis by auto
qed

lemma js_append_nonempty: "js (c # cs) \<noteq> []"
  by (simp add: js_def)

lemma loadCodexQuota_cases:
  "loadCodexQuota fetch token =
     Inr (case token of
            None \<Rightarrow> [\<lparr>source = js ''codex'', label = js ''Codex'', used = 0, resetAt = None,
                       error = Some (js ''No --codex-token provided'')\<rparr>]
          | Some t \<Rightarrow>
              if t = [] then [\<lparr>source = js ''codex'', label = js ''Codex'', used = 0, resetAt = None,
                                error = Some (js ''No --codex-token provided'')\<rparr>]
              else (case fetch t of
                      Inl err \<Rightarrow>
                        [\<lparr>source = js ''codex'', label = js ''Codex'', used = 0, resetAt = None,
                          error = Some (js ''Request failed: '' @
                                (case err of
                                   ErrorObject name message \<Rightarrow> message
                                 | NonError v \<Rightarrow> js ''Unknown error''))\<rparr>]
                    | Inr r \<Rightarrow>
                        if \<not> ok r then
                          [\<lparr>source = js ''codex'', label = js ''Codex'', used = 0, resetAt = None,
                            error = Some (js ''API error: '' @ nat_toString (status r))\<rparr>]
                        else (case json r of
                                Inl err \<Rightarrow>
                                  [\<lparr>source = js ''codex'', label = js ''Codex'', used = 0,
                                    resetAt = None,
                                    error = Some (js ''Request failed: '' @
                                      (case err of
                                         ErrorObject name message \<Rightarrow> message
                                       | NonError v \<Rightarrow> js ''Unknown error''))\<rparr>]
                              | Inr d \<Rightarrow> snapshots_of d)))"
  by (simp add: loadCodexQuota_def loadCodexQuota_try_def split: option.splits sum.splits)

lemma snapshots_of_shape:
  "(\<forall>s\<in>set (snapshots_of d). error_populated s) \<or>
   (\<forall>s\<in>set (snapshots_of d). error s = None \<and>
        (\<exists>w\<in>set (windows_of d). used s = used_percent w / 100))"
proof (cases "windows_of d = []")
  case True
  then show ?thesis
    by (simp add: snapshots_of_no_window error_populated_def js_def)
next
  case False
  then show ?thesis
    using snapshots_of_error used_from_window by blast
qed

text \<open>
  Claim C7 (the Codex loader never raises). For every token, absent, empty or not, and
  every behaviour of the network (a rejected \<open>fetch\<close>, a response that is not \<open>ok\<close>, a
  body that fails to parse, a body with or without rate-limit windows),
  \<open>loadCodexQuota\<close> resolves with a non-empty list of snapshots. Either every snapshot
  carries a non-empty error string, or a body was received and every snapshot has no
  error and a used fraction that is the \<open>used_percent\<close> of one of its windows divided
  by 100.
\<close>

theorem loadCodexQuota_never_raises:
  "\<exists>snaps. loadCodexQuota fetch token = Inr snaps \<and> snaps \<noteq> [] \<and>
     ((\<forall>s\<in>set snaps. error_populated s) \<or>
      (\<exists>t r d. token = Some t \<and> fetch t = Inr r \<and> json r = Inr d \<and>
         (\<forall>s\<in>set snaps. error s = None \<and>
            (\<exists>w\<in>set (windows_of d). used s = used_percent w / 100))))"
proof (cases token)
  case None
  then show ?thesis
    by (simp add: loadCodexQuota_cases error_populated_def js_def)
next
  case (Some t)
  show ?thesis
  proof (cases "t = []")
    case True
    with Some show ?thesis
      by (simp add: loadCodexQuota_cases error_populated_def js_def)
  next
    case nonempty: False
    show ?thesis
    proof (cases "fetch t")
      case (Inl err)
      with Some nonempty show ?thesis
        by (simp add: loadCodexQuota_cases error_populated_def js_append_nonempty)
    next
      case (Inr r)
      show ?thesis
      proof (cases "ok r")
        case False
        with Some nonempty Inr show ?thesis
          by (simp add: loadCodexQuota_cases error_populated_def js_append_nonempty)
      next
        case True
        show ?thesis
        proof (cases "json r")
          case (Inl err)
          with Some nonempty Inr True show ?thesis
            by (simp add: loadCodexQuota_cases error_populated_def js_append_nonempty)
        next
          case d: (Inr d)
          from Some nonempty Inr True d have "loadCodexQuota fetch token = Inr (snapshots_of d)"
            by (simp add: loadCodexQuota_cases)
          with Some Inr d snapshots_of_shape [of d] snapshots_of_nonempty [of d]
          show ?thesis by auto
        qed
      qed
    qed
  qed
qed


theorem loadCodexQuota_never_raises_witness:
  "loadCodexQuota sample_fetch None =
     Inr [\<lparr>source = js ''codex'', label = js ''Codex'', used = 0, resetAt = None,
           error = Some (js ''No --codex-token provided'')\<rparr>] \<and>
   loadCodexQuota sample_fetch (Some (js ''expired'')) =
     Inr [\<lparr>source = js ''codex'', label = js ''Codex'', used = 0, resetAt = None,
           error = Some (js ''API error: 401'')\<rparr>] \<and>
   loadCodexQuota sample_fetch (Some (js ''offline'')) =
     Inr [\<lparr>source = js ''codex'', label = js ''Codex'', used = 0, resetAt = None,
           error = Some (js ''Request failed: fetch failed'')\<rparr>] \<and>
   (\<exists>snaps. loadCodexQuota sample_fetch (Some (js ''good'')) = Inr snaps \<and> snaps \<noteq> [] \<and>
      map label snaps = [js ''Codex - 5h Limit'', js ''Codex - Weekly'', js ''Codex - Code Review''] \<and>
      map error snaps = [None, None, None])"
proof -
  have a: "loadCodexQuota sample_fetch None =
     Inr [\<lparr>source = js ''codex'', label = js ''Codex'', used = 0, resetAt = None,
           error = Some (js ''No --codex-token provided'')\<rparr>]"
    by (simp add: loadCodexQuota_def)
  have b: "loadCodexQuota sample_fetch (Some (js ''expired'')) =
     Inr [\<lparr>source = js ''codex'', label = js ''Codex'', used = 0, resetAt = None,
           error = Some (js ''API error: 401'')\<rparr>]"
    by (simp add: loadCodexQuota_def loadCodexQuota_try_def sample_fetch_def js_def)
  have c: "loadCodexQuota sample_fetch (Some (js ''offline'')) =
     Inr [\<lparr>source = js ''codex'', label = js ''Codex'', used = 0, resetAt = None,
           error = Some (js ''Request failed: fetch failed'')\<rparr>]"
    by (simp add: loadCodexQuota_def loadCodexQuota_try_def sample_fetch_def js_def)
  have d: "loadCodexQuota sample_fetch (Some (js ''good'')) = Inr (snapshots_of sample_usage)"
    by (simp add: loadCodexQuota_def loadCodexQuota_try_def sample_fetch_def js_def)
  from loadCodexQuota_never_raises [of sample_fetch "Some (js ''good'')"]
  obtain snaps where s: "loadCodexQuota sample_fetch (Some (js ''good'')) = Inr snaps" "snaps \<noteq> []"
    by blast
  with d have "snaps = snapshots_of sample_usage" by simp
  then have l: "map label snaps = [js ''Codex - 5h Limit'', js ''Codex - Weekly'', js ''Codex - Code Review'']"
    and e: "map error snaps = [None, None, None]"
    by (simp_all add: snapshots_of_def sample_usage_def)
  have "\<exists>snaps. loadCodexQuota sample_fetch (Some (js ''good'')) = Inr snaps \<and> snaps \<noteq> [] \<and>
      map label snaps = [js ''Codex - 5h Limit'', js ''Codex - Weekly'', js ''Codex - Code Review''] \<and>
      map error snaps = [None, None, None]"
    by (rule exI [of _ snaps]) (simp only: s l e simp_thms)
  then show ?thesis by (simp only: a b c simp_thms)
qed

text \<open>
  Claim C8 (percent to fraction). When a body with at least one window arrives, the
  snapshots are, window by window, \<open>used_percent / 100\<close> with that window's reset time
  and no error. And when every window of any body the call can receive has a
  \<open>used_percent\<close> between 0 and 100, every snapshot returned, the error snapshots
  included, has a used fraction between 0 and 1. Numbers are real numbers in the model.
\<close>

theorem codex_percent_to_fraction:
  "(t \<noteq> [] \<and> fetch t = Inr r \<and> ok r \<and> json r = Inr d \<and> windows_of d \<noteq> [] \<longrightarrow>
      (\<exists>snaps. loadCodexQuota fetch (Some t) = Inr snaps \<and>
         map used snaps = map (\<lambda>w. used_percent w / 100) (windows_of d) \<and>
         map resetAt snaps = map (\<lambda>w. Some (reset_at w)) (windows_of d) \<and>
         map error snaps = map (\<lambda>w. None) (windows_of d))) \<and>
   ((\<forall>t r d. token = Some t \<and> fetch t = Inr r \<and> json r = Inr d \<longrightarrow>
        (\<forall>w\<in>set (windows_of d). 0 \<le> used_percent w \<and> used_percent w \<le> 100)) \<longrightarrow>
      (\<exists>snaps. loadCodexQuota fetch token = Inr snaps \<and>
         (\<forall>s\<in>set snaps. 0 \<le> used s \<and> used s \<le> 1)))"
proof (intro conjI impI)
  assume a: "t \<noteq> [] \<and> fetch t = Inr r \<and> ok r \<and> json r = Inr d \<and> windows_of d \<noteq> []"
  then have "loadCodexQuota fetch (Some t) = Inr (snapshots_of d)"
    by (simp add: loadCodexQuota_cases)
  moreover have "map error (snapshots_of d) = map (\<lambda>w. None) (windows_of d)"
    using a by (auto simp: snapshots_of_def windows_of_def Let_def split: option.splits)
  ultimately show "\<exists>snaps. loadCodexQuota fetch (Some t) = Inr snaps \<and>
         map used snaps = map (\<lambda>w. used_percent w / 100) (windows_of d) \<and>
         map resetAt snaps = map (\<lambda>w. Some (reset_at w)) (windows_of d) \<and>
         map error snaps = map (\<lambda>w. None) (windows_of d)"
    using a by (simp add: snapshots_of_used snapshots_of_resetAt)
next
  assume range: "\<forall>t r d. token = Some t \<and> fetch t = Inr r \<and> json r = Inr d \<longrightarrow>
        (\<forall>w\<in>set (windows_of d). 0 \<le> used_percent w \<and> used_percent w \<le> 100)"
  have snaps_range: "0 \<le> used s \<and> used s \<le> 1"
    if d: "token = Some t'" "fetch t' = Inr r'" "json r' = Inr d'" and s: "s \<in> set (snapshots_of d')"
    for t' r' d' s
  proof (cases "windows_of d' = []")
    case True
    with s show ?thesis by (simp add: snapshots_of_no_window)
  next
    case False
    with s obtain w where w: "w \<in> set (windows_of d')" "used s = used_percent w / 100"
      using used_from_window by blast
    from range d w(1) have "0 \<le> used_percent w \<and> used_percent w \<le> 100" by blast
    with w(2) show ?thesis by simp
  qed
  show "\<exists>snaps. loadCodexQuota fetch token = Inr snaps \<and>
         (\<forall>s\<in>set snaps. 0 \<le> used s \<and> used s \<le> 1)"
    using snaps_range
    by (auto simp: loadCodexQuota_cases split: option.splits sum.splits)
qed

theorem codex_percent_to_fraction_witness:
  "\<exists>snaps. loadCodexQuota sample_fetch (Some (js ''good'')) = Inr snaps \<and>
     map used snaps = [48 / 100, 100 / 100, 0 / 100] \<and>
     map resetAt snaps = [Some 1700000000, Some 1700500000, Some 1700000500] \<and>
     list_all (\<lambda>s. 0 \<le> used s \<and> used s \<le> 1) snaps"
proof -
  have a: "js ''good'' \<noteq> [] \<and>
        sample_fetch (js ''good'') = Inr \<lparr>ok = True, status = 200, json = Inr sample_usage\<rparr> \<and>
        ok \<lparr>ok = True, status = 200, json = Inr sample_usage\<rparr> \<and>
        json \<lparr>ok = True, status = 200, json = Inr sample_usage\<rparr> = Inr sample_usage \<and>
        windows_of sample_usage \<noteq> []"
    by (simp add: sample_fetch_def js_def windows_of_def sample_usage_def)
  have b: "\<forall>t r d. Some (js ''good'') = Some t \<and> sample_fetch t = Inr r \<and> json r = Inr d \<longrightarrow>
        (\<forall>w\<in>set (windows_of d). 0 \<le> used_percent w \<and> used_percent w \<le> 100)"
    by (auto simp: sample_fetch_def js_def windows_of_def sample_usage_def)
  note inst = codex_percent_to_fraction [of "js ''good''" sample_fetch
      "\<lparr>ok = True, status = 200, json = Inr sample_usage\<rparr>" sample_usage "Some (js ''good'')"]
  from inst a
  obtain snaps where s: "loadCodexQuota sample_fetch (Some (js ''good'')) = Inr snaps"
    and u: "map used snaps = map (\<lambda>w. used_percent w / 100) (windows_of sample_usage)"
    and r: "map resetAt snaps = map (\<lambda>w. Some (reset_at w)) (windows_of sample_usage)"
    by blast
  from inst b
  obtain snaps' where s': "loadCodexQuota sample_fetch (Some (js ''good'')) = Inr snaps'"
    and range: "\<forall>s\<in>set snaps'. 0 \<le> used s \<and> used s \<le> 1"
    by blast
  from s s' have "snaps' = snaps" by simp
  with range have "list_all (\<lambda>s. 0 \<le> used s \<and> used s \<le> 1) snaps"
    by (simp add: list_all_iff)
  with s u r show ?thesis
    by (intro exI [of _ snaps]) (simp add: windows_of_def sample_usage_def)
qed

section \<open>Properties of the usage table\<close>

lemma js_includes_infix: "js_includes (a @ t @ b) t"
proof (induction a)
  case Nil
  have "take (length t) (t @ b) = t" by simp
  then show ?case by (cases "t @ b") auto
next
  case (Cons x a)
  then show ?case by simp
qed

lemma js_includes_prefix: "js_includes (t @ b) t"
  using js_includes_infix [of "[]" t b] by simp

lemma split_lines_first:
  "0x0A \<notin> set a \<Longrightarrow> split_lines (a @ 0x0A # b) = a # split_lines b"
  by (induction a) auto

lemma rows_loop_text:
  "\<forall>d\<in>set ds. map_of m d \<noteq> None \<Longrightarrow>
   \<exists>st'. rows_loop tier m ds st = Inr st' \<and>
         out_text st' = out_text st @ rows_text tier m ds"
proof (induction ds arbitrary: st)
  case Nil
  show ?case by (simp add: rows_text_def)
next
  case (Cons d ds)
  from Cons.prems obtain stats where stats: "map_of m d = Some stats" by auto
  let ?st = "\<lparr>out_text = out_text st @ table_row tier d stats @ nl,
             totalInput = totalInput st + (stats_input stats + cacheRead stats + cacheWrite stats),
             totalOutput = totalOutput st + stats_output stats,
             totalCost = totalCost st + cost stats\<rparr>"
  from Cons.prems have "\<forall>d\<in>set ds. map_of m d \<noteq> None" by simp
  from Cons.IH [OF this, of ?st]
  obtain st' where "rows_loop tier m ds ?st = Inr st'"
    and "out_text st' = out_text ?st @ rows_text tier m ds" by blast
  with stats show ?case by (simp add: rows_text_def)
qed

lemma rows_text_row:
  assumes "d \<in> set ds" and "map_of m d = Some stats"
  shows "\<exists>a b. rows_text tier m ds = a @ (table_row tier d stats @ nl) @ b"
proof -
  from assms(1) obtain xs ys where "ds = xs @ d # ys" by (auto simp: in_set_conv_decomp)
  with assms(2) have "rows_text tier m ds =
      rows_text tier m xs @ (table_row tier d stats @ nl) @ rows_text tier m ys"
    by (simp add: rows_text_def)
  then show ?thesis by blast
qed

lemma sort_not_Nil: "xs \<noteq> [] \<Longrightarrow> sort xs \<noteq> []"
  by (metis set_sort set_empty)

lemma replicate_numeral: "replicate (numeral k) x = x # replicate (pred_numeral k) x"
  by (simp add: numeral_eq_Suc)

lemma keys_present: "\<forall>d\<in>set (sort (map fst m)). map_of m d \<noteq> None"
  by (auto simp: map_of_eq_None_iff)

lemma renderUsageTable_text:
  assumes "m \<noteq> []"
  shows "\<exists>st. renderUsageTable m width =
           Inr (topLine (tier_of width) @ nl @ header (tier_of width) @ nl @
                midLine (tier_of width) @ nl @
                rows_text (tier_of width) m (sort (map fst m)) @
                midLine (tier_of width) @ nl @ totalRow (tier_of width) st @ nl @
                bottomLine (tier_of width))"
proof -
  let ?t = "tier_of width"
  let ?st0 = "\<lparr>out_text = topLine ?t @ nl @ header ?t @ nl @ midLine ?t @ nl,
               totalInput = 0, totalOutput = 0, totalCost = 0\<rparr>"
  from rows_loop_text [OF keys_present, of ?t m ?st0]
  obtain st' where "rows_loop ?t m (sort (map fst m)) ?st0 = Inr st'"
    and "out_text st' = out_text ?st0 @ rows_text ?t m (sort (map fst m))" by blast
  moreover from assms have "sort (map fst m) \<noteq> []" by (simp add: sort_not_Nil)
  ultimately have "renderUsageTable m width =
           Inr (topLine ?t @ nl @ header ?t @ nl @ midLine ?t @ nl @
                rows_text ?t m (sort (map fst m)) @
                midLine ?t @ nl @ totalRow ?t st' @ nl @ bottomLine ?t)"
    by (simp add: renderUsageTable_def Let_def)
  then show ?thesis by blast
qed

lemmas table_defs =
  topLine_def midLine_def bottomLine_def header_def colDate_def colModels_def colTotal_def
  colCost_def h_ch_def v_ch_def tl_ch_def tr_ch_def bl_ch_def br_ch_def ml_ch_def mr_ch_def mt_ch_def mb_ch_def mm_ch_def
  nl_def repeat_def padRight_def padLeft_def js_def replicate_numeral

lemma topLine_no_nl: "0x0A \<notin> set (topLine tier)"
  by (cases tier) (simp_all add: table_defs)

lemma header_no_nl: "0x0A \<notin> set (header tier)"
  by (cases tier) (simp_all add: table_defs)

lemma split_lines_render:
  "split_lines (topLine t @ nl @ header t @ nl @ rest) = topLine t # header t # split_lines rest"
proof -
  have "split_lines (topLine t @ 0x0A # (header t @ 0x0A # rest))
          = topLine t # split_lines (header t @ 0x0A # rest)"
    using topLine_no_nl by (rule split_lines_first)
  also have "split_lines (header t @ 0x0A # rest) = header t # split_lines rest"
    using header_no_nl by (rule split_lines_first)
  finally show ?thesis by (simp add: nl_def)
qed

lemma header_narrow: "header narrow = v_ch @ js '' Date       '' @ v_ch @ js ''     Cost '' @ v_ch"
  by (simp add: header_def colDate_def colCost_def colTotal_def colModels_def padRight_def padLeft_def js_def replicate_numeral)

lemma topLine_columns:
  "count_list (topLine tier) 0x252C = (case tier of wide \<Rightarrow> 3 | medium \<Rightarrow> 2 | narrow \<Rightarrow> 1)"
  by (cases tier) (simp_all add: table_defs)

lemma header_date: "js_includes (header tier) (js '' Date'')"
  by (cases tier) (simp_all add: table_defs)


lemma header_cost: "js_includes (header tier) (js ''Cost '')"
  by (cases tier) (simp_all add: table_defs)

lemma header_models: "js_includes (header tier) (js '' Models'') = (tier = wide)"
  by (cases tier) (simp_all add: table_defs)

lemma header_tokens: "js_includes (header tier) (js ''Tokens '') = (tier \<noteq> narrow)"
  by (cases tier) (simp_all add: table_defs)

lemma js_includes_iff: "js_includes s t \<longleftrightarrow> (\<exists>a b. s = a @ t @ b)"
proof
  assume "js_includes s t"
  then show "\<exists>a b. s = a @ t @ b"
  proof (induction s)
    case Nil
    then show ?case by simp
  next
    case (Cons c cs)
    show ?case
    proof (cases "take (length t) (c # cs) = t")
      case True
      then have "c # cs = [] @ t @ drop (length t) (c # cs)"
        by (metis append_Nil append_take_drop_id)
      then show ?thesis by blast
    next
      case False
      with Cons.prems have "js_includes cs t" by simp
      then obtain a b where "cs = a @ t @ b" using Cons.IH by blast
      then have "c # cs = (c # a) @ t @ b" by simp
      then show ?thesis by blast
    qed
  qed
next
  assume "\<exists>a b. s = a @ t @ b"
  then show "js_includes s t" using js_includes_infix by blast
qed

lemma js_includes_part:
  assumes "s = p @ r @ q" and "r = x @ t @ y"
  shows "js_includes s t"
proof -
  from assms have "s = (p @ x) @ t @ (y @ q)" by simp
  then show ?thesis by (simp only: js_includes_iff) blast
qed

lemma table_row_date_cell:
  "\<exists>y. table_row tier d stats = [] @ (v_ch @ padRight (js '' '' @ d) colDate @ v_ch) @ y"
  by (cases tier) (simp_all add: table_row_def Let_def)

lemma table_row_cost_cell:
  "\<exists>x. table_row tier d stats @ nl =
         x @ (v_ch @ padLeft (formatCost (cost stats) @ js '' '') colCost @ v_ch @ nl) @ []"
  by (cases tier) (simp_all add: table_row_def Let_def)

lemma render_row:
  assumes "map_of m d = Some stats"
  shows "\<exists>out p q. renderUsageTable m width = Inr out \<and>
           out = p @ (table_row (tier_of width) d stats @ nl) @ q"
proof -
  let ?t = "tier_of width"
  from assms have key: "d \<in> set (sort (map fst m))"
    by (auto dest!: map_of_SomeD intro: rev_image_eqI)
  then have "m \<noteq> []" by auto
  then obtain st where out: "renderUsageTable m width =
           Inr (topLine ?t @ nl @ header ?t @ nl @ midLine ?t @ nl @
                rows_text ?t m (sort (map fst m)) @
                midLine ?t @ nl @ totalRow ?t st @ nl @ bottomLine ?t)"
    using renderUsageTable_text by blast
  from rows_text_row [OF key assms, of ?t]
  obtain a b where "rows_text ?t m (sort (map fst m)) = a @ (table_row ?t d stats @ nl) @ b"
    by blast
  then have "topLine ?t @ nl @ header ?t @ nl @ midLine ?t @ nl @
                rows_text ?t m (sort (map fst m)) @
                midLine ?t @ nl @ totalRow ?t st @ nl @ bottomLine ?t
           = (topLine ?t @ nl @ header ?t @ nl @ midLine ?t @ nl @ a) @
             (table_row ?t d stats @ nl) @
             (b @ midLine ?t @ nl @ totalRow ?t st @ nl @ bottomLine ?t)"
    by simp
  with out show ?thesis by blast
qed

lemma usage_table_labels:
  assumes "dailyStats \<noteq> []"
  shows "\<exists>out. renderUsageTable dailyStats width = Inr out \<and>
           split_lines out ! 1 = header (tier_of width) \<and>
           js_includes (split_lines out ! 1) (js '' Date'') \<and>
           js_includes (split_lines out ! 1) (js ''Cost '') \<and>
           js_includes (split_lines out ! 1) (js '' Models'') = (tier_of width = wide) \<and>
           js_includes (split_lines out ! 1) (js ''Tokens '') = (tier_of width \<noteq> narrow) \<and>
           count_list (split_lines out ! 0) 0x252C =
             (case tier_of width of wide \<Rightarrow> 3 | medium \<Rightarrow> 2 | narrow \<Rightarrow> 1) \<and>
           (\<forall>d stats. map_of dailyStats d = Some stats \<longrightarrow>
              js_includes out (v_ch @ padRight (js '' '' @ d) colDate @ v_ch) \<and>
              js_includes out (v_ch @ padLeft (formatCost (cost stats) @ js '' '') colCost @ v_ch @ nl))"
proof -
  let ?t = "tier_of width"
  from assms obtain st where out: "renderUsageTable dailyStats width =
           Inr (topLine ?t @ nl @ header ?t @ nl @ midLine ?t @ nl @
                rows_text ?t dailyStats (sort (map fst dailyStats)) @
                midLine ?t @ nl @ totalRow ?t st @ nl @ bottomLine ?t)"
    using renderUsageTable_text by blast
  define out where "out = topLine ?t @ nl @ header ?t @ nl @ midLine ?t @ nl @
                rows_text ?t dailyStats (sort (map fst dailyStats)) @
                midLine ?t @ nl @ totalRow ?t st @ nl @ bottomLine ?t"
  have r: "renderUsageTable dailyStats width = Inr out"
    using out by (simp only: out_def)
  have "\<exists>rest. split_lines out = topLine ?t # header ?t # rest"
    unfolding out_def by (simp only: split_lines_render) blast
  then have l0: "split_lines out ! 0 = topLine ?t" and l1: "split_lines out ! 1 = header ?t"
    by auto
  have rows: "js_includes out (v_ch @ padRight (js '' '' @ d) colDate @ v_ch) \<and>
              js_includes out (v_ch @ padLeft (formatCost (cost stats) @ js '' '') colCost @ v_ch @ nl)"
    if "map_of dailyStats d = Some stats" for d stats
  proof -
    from render_row [OF that, of width] r
    obtain p q where pq: "out = p @ (table_row ?t d stats @ nl) @ q" by auto
    obtain y where "table_row ?t d stats = [] @ (v_ch @ padRight (js '' '' @ d) colDate @ v_ch) @ y"
      using table_row_date_cell by blast
    then have "table_row ?t d stats @ nl = [] @ (v_ch @ padRight (js '' '' @ d) colDate @ v_ch) @ (y @ nl)"
      by simp
    with pq have a: "js_includes out (v_ch @ padRight (js '' '' @ d) colDate @ v_ch)"
      by (rule js_includes_part)
    obtain x where "table_row ?t d stats @ nl =
         x @ (v_ch @ padLeft (formatCost (cost stats) @ js '' '') colCost @ v_ch @ nl) @ []"
      using table_row_cost_cell by blast
    with pq have "js_includes out (v_ch @ padLeft (formatCost (cost stats) @ js '' '') colCost @ v_ch @ nl)"
      by (rule js_includes_part)
    with a show ?thesis by simp
  qed
  show ?thesis
    apply (rule exI [of _ out])
    apply (simp only: r l0 l1 header_date header_cost header_models header_tokens topLine_columns)
    using rows apply blast
    done
qed

lemma tier_of_thresholds:
  "tier_of width =
     (case width of
        None \<Rightarrow> wide
      | Some w \<Rightarrow> if w = 0 then wide else if w < 105 then narrow
                   else if w < 140 then medium else wide)"
  by (simp add: tier_of_def getTableWidthTier_def split: option.splits)

lemma topLine_border: "topLine t = border_line tl_ch mt_ch tr_ch (tier_columns t)"
  by (cases t) (simp_all add: topLine_def border_line_def tier_columns_def colDate_def
      colModels_def colTotal_def colCost_def)

lemma midLine_border: "midLine t = border_line ml_ch mm_ch mr_ch (tier_columns t)"
  by (cases t) (simp_all add: midLine_def border_line_def tier_columns_def colDate_def
      colModels_def colTotal_def colCost_def)

lemma bottomLine_border: "bottomLine t = border_line bl_ch mb_ch br_ch (tier_columns t)"
  by (cases t) (simp_all add: bottomLine_def border_line_def tier_columns_def colDate_def
      colModels_def colTotal_def colCost_def)

lemma header_line: "header t = table_line (map header_cell (tier_columns t))"
  by (cases t) (simp_all add: header_def table_line_def tier_columns_def colDate_def
      colModels_def colTotal_def colCost_def)

lemma first_model_take:
  "(case ms of [] \<Rightarrow> [] | m0 # rest \<Rightarrow> if m0 = [] then [] else take 28 m0) =
   (case ms of [] \<Rightarrow> [] | m0 # rest \<Rightarrow> take 28 m0)"
  by (cases ms) simp_all

lemma table_row_line:
  "table_row t d stats = table_line (map (row_cell d stats) (tier_columns t))"
  by (cases t) (simp_all add: table_row_def Let_def table_line_def tier_columns_def colDate_def
      colModels_def colTotal_def colCost_def day_tokens_def first_model_take)

lemma totalRow_line:
  "totalRow t st =
     table_line (map (total_cell (totalInput st + totalOutput st) (totalCost st)) (tier_columns t))"
  by (cases t) (simp_all add: totalRow_def Let_def table_line_def tier_columns_def colDate_def
      colModels_def colTotal_def colCost_def)

lemma rows_loop_entries:
  "\<forall>d\<in>set ds. map_of m d \<noteq> None \<Longrightarrow>
   rows_loop t m ds st =
     Inr \<lparr>out_text = out_text st @
                      concat (map (\<lambda>(d, stats). table_row t d stats @ nl) (entries_at m ds)),
          totalInput = totalInput st +
                       sum_list (map (\<lambda>(d, stats). stats_input stats + cacheRead stats + cacheWrite stats)
                                     (entries_at m ds)),
          totalOutput = totalOutput st + sum_list (map (\<lambda>(d, stats). stats_output stats) (entries_at m ds)),
          totalCost = totalCost st + sum_list (map (\<lambda>(d, stats). cost stats) (entries_at m ds))\<rparr>"
proof (induction ds arbitrary: st)
  case Nil
  show ?case by (simp add: entries_at_def)
next
  case (Cons d ds)
  from Cons.prems obtain stats where stats: "map_of m d = Some stats" by auto
  from Cons.prems have rest: "\<forall>d\<in>set ds. map_of m d \<noteq> None" by simp
  have e: "entries_at m (d # ds) = (d, stats) # entries_at m ds"
    using stats by (simp add: entries_at_def)
  show ?case
    by (simp add: stats e Cons.IH [OF rest] algebra_simps)
qed

lemma sum_day_tokens:
  "sum_list (map (\<lambda>(d, stats). stats_input stats + cacheRead stats + cacheWrite stats) es) +
   sum_list (map (\<lambda>(d, stats). stats_output stats) es) =
   sum_list (map (day_tokens \<circ> snd) es)"
  by (induction es) (auto simp: day_tokens_def)

lemma sum_cost: "sum_list (map (\<lambda>(d, stats). cost stats) es) = sum_list (map (cost \<circ> snd) es)"
  by (induction es) auto

lemma entries_at_keys:
  "\<forall>d\<in>set ds. map_of m d \<noteq> None \<Longrightarrow> map fst (entries_at m ds) = ds"
  by (induction ds) (auto simp: entries_at_def)

lemma entries_at_lookup: "(d, stats) \<in> set (entries_at m ds) \<Longrightarrow> map_of m d = Some stats"
  by (auto simp: entries_at_def split: option.splits)

lemma renderUsageTable_lines:
  assumes "m \<noteq> []"
  shows "renderUsageTable m width =
     Inr (border_line tl_ch mt_ch tr_ch (tier_columns (tier_of width)) @ nl @
          table_line (map header_cell (tier_columns (tier_of width))) @ nl @
          border_line ml_ch mm_ch mr_ch (tier_columns (tier_of width)) @ nl @
          concat (map (\<lambda>(d, stats).
                    table_line (map (row_cell d stats) (tier_columns (tier_of width))) @ nl)
                  (sorted_entries m)) @
          border_line ml_ch mm_ch mr_ch (tier_columns (tier_of width)) @ nl @
          table_line (map (total_cell (sum_list (map (day_tokens \<circ> snd) (sorted_entries m)))
                                      (sum_list (map (cost \<circ> snd) (sorted_entries m))))
                          (tier_columns (tier_of width))) @ nl @
          border_line bl_ch mb_ch br_ch (tier_columns (tier_of width)))"
proof -
  from assms have ne: "sort (map fst m) \<noteq> []" by (simp add: sort_not_Nil)
  show ?thesis
    by (simp add: renderUsageTable_def Let_def ne rows_loop_entries [OF keys_present]
        totalRow_line sum_day_tokens sum_cost sorted_entries_def
        topLine_border midLine_border bottomLine_border header_line table_row_line
        del: rows_loop.simps)
qed


text \<open>
  Claim C9 (columns by width tier). For every non-empty aggregate and every width,
  \<open>renderUsageTable\<close> returns a text. The tier is wide for an absent width, for the
  width 0 and from 140 on, narrow below 105, and medium from 105 to 139. The columns are
  date, models, tokens, cost in the wide tier; date, tokens, cost in the medium tier; and
  date, cost in the narrow tier. The text is, line by line: the top border, the header,
  a border, one row for every date of the aggregate in the order of the dates, a border,
  the total row and the bottom border, and each of these lines has one cell for each
  column of the tier and no other. The second line is the header; it always holds the
  labels of the date and cost columns, holds the label of the models column in the wide
  tier only and the label of the token column in the wide and medium tiers only; the top
  border has one junction less than the table has columns; and the text holds the date
  cell and the cost cell of every date.
\<close>

theorem usage_table_columns_by_tier:
  assumes "dailyStats \<noteq> []"
  shows "\<exists>out t cols.
           renderUsageTable dailyStats width = Inr out \<and>
           t = (case width of
                  None \<Rightarrow> wide
                | Some w \<Rightarrow> if w = 0 then wide else if w < 105 then narrow
                             else if w < 140 then medium else wide) \<and>
           cols = (case t of
                     wide \<Rightarrow> [DateCol, ModelsCol, TokensCol, CostCol]
                   | medium \<Rightarrow> [DateCol, TokensCol, CostCol]
                   | narrow \<Rightarrow> [DateCol, CostCol]) \<and>
           out = border_line tl_ch mt_ch tr_ch cols @ nl @
                 table_line (map header_cell cols) @ nl @
                 border_line ml_ch mm_ch mr_ch cols @ nl @
                 concat (map (\<lambda>(d, stats). table_line (map (row_cell d stats) cols) @ nl)
                             (sorted_entries dailyStats)) @
                 border_line ml_ch mm_ch mr_ch cols @ nl @
                 table_line (map (total_cell
                                    (sum_list (map (day_tokens \<circ> snd) (sorted_entries dailyStats)))
                                    (sum_list (map (cost \<circ> snd) (sorted_entries dailyStats))))
                                 cols) @ nl @
                 border_line bl_ch mb_ch br_ch cols \<and>
           map fst (sorted_entries dailyStats) = sort (map fst dailyStats) \<and>
           (\<forall>(d, stats)\<in>set (sorted_entries dailyStats). map_of dailyStats d = Some stats) \<and>
           split_lines out ! 1 = table_line (map header_cell cols) \<and>
           js_includes (split_lines out ! 1) (js '' Date'') \<and>
           js_includes (split_lines out ! 1) (js ''Cost '') \<and>
           js_includes (split_lines out ! 1) (js '' Models'') = (t = wide) \<and>
           js_includes (split_lines out ! 1) (js ''Tokens '') = (t \<noteq> narrow) \<and>
           count_list (split_lines out ! 0) 0x252C =
             (case t of wide \<Rightarrow> 3 | medium \<Rightarrow> 2 | narrow \<Rightarrow> 1) \<and>
           (\<forall>d stats. map_of dailyStats d = Some stats \<longrightarrow>
              js_includes out (v_ch @ padRight (js '' '' @ d) colDate @ v_ch) \<and>
              js_includes out (v_ch @ padLeft (formatCost (cost stats) @ js '' '') colCost @ v_ch @ nl))"
proof -
  let ?t = "tier_of width"
  let ?cols = "tier_columns ?t"
  from usage_table_labels [OF assms, of width]
  obtain out where out: "renderUsageTable dailyStats width = Inr out"
    and labels: "split_lines out ! 1 = header ?t"
      "js_includes (split_lines out ! 1) (js '' Date'')"
      "js_includes (split_lines out ! 1) (js ''Cost '')"
      "js_includes (split_lines out ! 1) (js '' Models'') = (?t = wide)"
      "js_includes (split_lines out ! 1) (js ''Tokens '') = (?t \<noteq> narrow)"
      "count_list (split_lines out ! 0) 0x252C =
             (case ?t of wide \<Rightarrow> 3 | medium \<Rightarrow> 2 | narrow \<Rightarrow> 1)"
      "\<forall>d stats. map_of dailyStats d = Some stats \<longrightarrow>
              js_includes out (v_ch @ padRight (js '' '' @ d) colDate @ v_ch) \<and>
              js_includes out (v_ch @ padLeft (formatCost (cost stats) @ js '' '') colCost @ v_ch @ nl)"
    by blast
  have t: "?t = (case width of
                  None \<Rightarrow> wide
                | Some w \<Rightarrow> if w = 0 then wide else if w < 105 then narrow
                             else if w < 140 then medium else wide)"
    by (rule tier_of_thresholds)
  have cols: "?cols = (case ?t of
                     wide \<Rightarrow> [DateCol, ModelsCol, TokensCol, CostCol]
                   | medium \<Rightarrow> [DateCol, TokensCol, CostCol]
                   | narrow \<Rightarrow> [DateCol, CostCol])"
    by (simp add: tier_columns_def)
  from out renderUsageTable_lines [OF assms, of width]
  have whole: "out = border_line tl_ch mt_ch tr_ch ?cols @ nl @
                 table_line (map header_cell ?cols) @ nl @
                 border_line ml_ch mm_ch mr_ch ?cols @ nl @
                 concat (map (\<lambda>(d, stats). table_line (map (row_cell d stats) ?cols) @ nl)
                             (sorted_entries dailyStats)) @
                 border_line ml_ch mm_ch mr_ch ?cols @ nl @
                 table_line (map (total_cell
                                    (sum_list (map (day_tokens \<circ> snd) (sorted_entries dailyStats)))
                                    (sum_list (map (cost \<circ> snd) (sorted_entries dailyStats))))
                                 ?cols) @ nl @
                 border_line bl_ch mb_ch br_ch ?cols"
    by simp
  have keys: "map fst (sorted_entries dailyStats) = sort (map fst dailyStats)"
    unfolding sorted_entries_def using keys_present by (rule entries_at_keys)
  have lookup: "\<forall>(d, stats)\<in>set (sorted_entries dailyStats). map_of dailyStats d = Some stats"
    by (auto simp: sorted_entries_def dest: entries_at_lookup)
  have hdr: "split_lines out ! 1 = table_line (map header_cell ?cols)"
    using labels(1) by (simp only: header_line)
  show ?thesis
    apply (rule exI [of _ out])
    apply (rule exI [of _ ?t])
    apply (rule exI [of _ ?cols])
    apply (intro conjI)
                 apply (rule out)
                apply (rule t)
               apply (rule cols)
              apply (rule whole)
             apply (rule keys)
            apply (rule lookup)
           apply (rule hdr)
          apply (rule labels(2))
         apply (rule labels(3))
        apply (rule labels(4))
       apply (rule labels(5))
      apply (rule labels(6))
     apply (rule labels(7))
    done
qed


lemma sample_sorted_entries:
  "sorted_entries sample_stats =
     [(js ''2025-02-10'', stats_2025_02_10), (js ''2025-02-11'', stats_2025_02_11)]"
  by (simp add: sorted_entries_def entries_at_def sample_stats_def js_def)

lemma sample_cells:
  "formatCost (cost stats_2025_02_10) = js ''$10.99''"
  "formatCost (cost stats_2025_02_11) = js ''$123.45''"
  "formatCost (cost stats_2025_02_10 + cost stats_2025_02_11) = js ''$134.44''"
  "formatNumber (day_tokens stats_2025_02_10) = js ''150''"
  "formatNumber (day_tokens stats_2025_02_11) = js ''1.5M''"
  "formatNumber (day_tokens stats_2025_02_10 + day_tokens stats_2025_02_11) = js ''1.5M''"
  "sort (models stats_2025_02_10) = [js ''claude-3-5-sonnet-20241022-long-name-x'']"
  "sort (models stats_2025_02_11) = [js ''claude-opus-4-5'', js ''gpt-4o'']"
  by (simp_all add: formatCost_def formatNumber_def toFixed_def int_toString_def day_tokens_def
      stats_2025_02_10_def stats_2025_02_11_def js_def Let_def)

lemmas line_defs =
  table_line_def border_line_def padRight_def padLeft_def repeat_def replicate_numeral

theorem usage_table_columns_by_tier_witness:
  "renderUsageTable sample_stats (Some 104) =
     Inr (tl_ch @ repeat h_ch 12 @ mt_ch @ repeat h_ch 10 @ tr_ch @ nl @
          v_ch @ js '' Date       '' @ v_ch @ js ''     Cost '' @ v_ch @ nl @
          ml_ch @ repeat h_ch 12 @ mm_ch @ repeat h_ch 10 @ mr_ch @ nl @
          v_ch @ js '' 2025-02-10 '' @ v_ch @ js ''   $10.99 '' @ v_ch @ nl @
          v_ch @ js '' 2025-02-11 '' @ v_ch @ js ''  $123.45 '' @ v_ch @ nl @
          ml_ch @ repeat h_ch 12 @ mm_ch @ repeat h_ch 10 @ mr_ch @ nl @
          v_ch @ js '' Total      '' @ v_ch @ js ''  $134.44 '' @ v_ch @ nl @
          bl_ch @ repeat h_ch 12 @ mb_ch @ repeat h_ch 10 @ br_ch) \<and>
   renderUsageTable sample_stats (Some 139) =
     Inr (tl_ch @ repeat h_ch 12 @ mt_ch @ repeat h_ch 12 @ mt_ch @ repeat h_ch 10 @ tr_ch @ nl @
          v_ch @ js '' Date       '' @ v_ch @ js ''     Tokens '' @ v_ch @ js ''     Cost '' @ v_ch @ nl @
          ml_ch @ repeat h_ch 12 @ mm_ch @ repeat h_ch 12 @ mm_ch @ repeat h_ch 10 @ mr_ch @ nl @
          v_ch @ js '' 2025-02-10 '' @ v_ch @ js ''        150 '' @ v_ch @ js ''   $10.99 '' @ v_ch @ nl @
          v_ch @ js '' 2025-02-11 '' @ v_ch @ js ''       1.5M '' @ v_ch @ js ''  $123.45 '' @ v_ch @ nl @
          ml_ch @ repeat h_ch 12 @ mm_ch @ repeat h_ch 12 @ mm_ch @ repeat h_ch 10 @ mr_ch @ nl @
          v_ch @ js '' Total      '' @ v_ch @ js ''       1.5M '' @ v_ch @ js ''  $134.44 '' @ v_ch @ nl @
          bl_ch @ repeat h_ch 12 @ mb_ch @ repeat h_ch 12 @ mb_ch @ repeat h_ch 10 @ br_ch) \<and>
   renderUsageTable sample_stats (Some 140) =
     Inr (tl_ch @ repeat h_ch 12 @ mt_ch @ repeat h_ch 30 @ mt_ch @ repeat h_ch 12 @ mt_ch @
            repeat h_ch 10 @ tr_ch @ nl @
          v_ch @ js '' Date       '' @ v_ch @ js '' Models                       '' @ v_ch @
            js ''     Tokens '' @ v_ch @ js ''     Cost '' @ v_ch @ nl @
          ml_ch @ repeat h_ch 12 @ mm_ch @ repeat h_ch 30 @ mm_ch @ repeat h_ch 12 @ mm_ch @
            repeat h_ch 10 @ mr_ch @ nl @
          v_ch @ js '' 2025-02-10 '' @ v_ch @ js '' claude-3-5-sonnet-20241022-l '' @ v_ch @
            js ''        150 '' @ v_ch @ js ''   $10.99 '' @ v_ch @ nl @
          v_ch @ js '' 2025-02-11 '' @ v_ch @ js '' claude-opus-4-5              '' @ v_ch @
            js ''       1.5M '' @ v_ch @ js ''  $123.45 '' @ v_ch @ nl @
          ml_ch @ repeat h_ch 12 @ mm_ch @ repeat h_ch 30 @ mm_ch @ repeat h_ch 12 @ mm_ch @
            repeat h_ch 10 @ mr_ch @ nl @
          v_ch @ js '' Total      '' @ v_ch @ js ''                              '' @ v_ch @
            js ''       1.5M '' @ v_ch @ js ''  $134.44 '' @ v_ch @ nl @
          bl_ch @ repeat h_ch 12 @ mb_ch @ repeat h_ch 30 @ mb_ch @ repeat h_ch 12 @ mb_ch @
            repeat h_ch 10 @ br_ch)"
proof -
  have ne: "sample_stats \<noteq> []" by (simp add: sample_stats_def)
  note inst = usage_table_columns_by_tier [OF ne]
  from inst [of "Some 104"]
  have a: "renderUsageTable sample_stats (Some 104) =
     Inr (tl_ch @ repeat h_ch 12 @ mt_ch @ repeat h_ch 10 @ tr_ch @ nl @
          v_ch @ js '' Date       '' @ v_ch @ js ''     Cost '' @ v_ch @ nl @
          ml_ch @ repeat h_ch 12 @ mm_ch @ repeat h_ch 10 @ mr_ch @ nl @
          v_ch @ js '' 2025-02-10 '' @ v_ch @ js ''   $10.99 '' @ v_ch @ nl @
          v_ch @ js '' 2025-02-11 '' @ v_ch @ js ''  $123.45 '' @ v_ch @ nl @
          ml_ch @ repeat h_ch 12 @ mm_ch @ repeat h_ch 10 @ mr_ch @ nl @
          v_ch @ js '' Total      '' @ v_ch @ js ''  $134.44 '' @ v_ch @ nl @
          bl_ch @ repeat h_ch 12 @ mb_ch @ repeat h_ch 10 @ br_ch)"
    by (clarsimp simp: sample_sorted_entries sample_cells) (simp add: line_defs js_def)
  from inst [of "Some 139"]
  have b: "renderUsageTable sample_stats (Some 139) =
     Inr (tl_ch @ repeat h_ch 12 @ mt_ch @ repeat h_ch 12 @ mt_ch @ repeat h_ch 10 @ tr_ch @ nl @
          v_ch @ js '' Date       '' @ v_ch @ js ''     Tokens '' @ v_ch @ js ''     Cost '' @ v_ch @ nl @
          ml_ch @ repeat h_ch 12 @ mm_ch @ repeat h_ch 12 @ mm_ch @ repeat h_ch 10 @ mr_ch @ nl @
          v_ch @ js '' 2025-02-10 '' @ v_ch @ js ''        150 '' @ v_ch @ js ''   $10.99 '' @ v_ch @ nl @
          v_ch @ js '' 2025-02-11 '' @ v_ch @ js ''       1.5M '' @ v_ch @ js ''  $123.45 '' @ v_ch @ nl @
          ml_ch @ repeat h_ch 12 @ mm_ch @ repeat h_ch 12 @ mm_ch @ repeat h_ch 10 @ mr_ch @ nl @
          v_ch @ js '' Total      '' @ v_ch @ js ''       1.5M '' @ v_ch @ js ''  $134.44 '' @ v_ch @ nl @
          bl_ch @ repeat h_ch 12 @ mb_ch @ repeat h_ch 12 @ mb_ch @ repeat h_ch 10 @ br_ch)"
    by (clarsimp simp: sample_sorted_entries sample_cells) (simp add: line_defs js_def)
  from inst [of "Some 140"]
  have c: "renderUsageTable sample_stats (Some 140) =
     Inr (tl_ch @ repeat h_ch 12 @ mt_ch @ repeat h_ch 30 @ mt_ch @ repeat h_ch 12 @ mt_ch @
            repeat h_ch 10 @ tr_ch @ nl @
          v_ch @ js '' Date       '' @ v_ch @ js '' Models                       '' @ v_ch @
            js ''     Tokens '' @ v_ch @ js ''     Cost '' @ v_ch @ nl @
          ml_ch @ repeat h_ch 12 @ mm_ch @ repeat h_ch 30 @ mm_ch @ repeat h_ch 12 @ mm_ch @
            repeat h_ch 10 @ mr_ch @ nl @
          v_ch @ js '' 2025-02-10 '' @ v_ch @ js '' claude-3-5-sonnet-20241022-l '' @ v_ch @
            js ''        150 '' @ v_ch @ js ''   $10.99 '' @ v_ch @ nl @
          v_ch @ js '' 2025-02-11 '' @ v_ch @ js '' claude-opus-4-5              '' @ v_ch @
            js ''       1.5M '' @ v_ch @ js ''  $123.45 '' @ v_ch @ nl @
          ml_ch @ repeat h_ch 12 @ mm_ch @ repeat h_ch 30 @ mm_ch @ repeat h_ch 12 @ mm_ch @
            repeat h_ch 10 @ mr_ch @ nl @
          v_ch @ js '' Total      '' @ v_ch @ js ''                              '' @ v_ch @
            js ''       1.5M '' @ v_ch @ js ''  $134.44 '' @ v_ch @ nl @
          bl_ch @ repeat h_ch 12 @ mb_ch @ repeat h_ch 30 @ mb_ch @ repeat h_ch 12 @ mb_ch @
            repeat h_ch 10 @ br_ch)"
    by (clarsimp simp: sample_sorted_entries sample_cells) (simp add: line_defs js_def)
  from a b c show ?thesis by (intro conjI)
qed

lemma sort_starts_with_Min:
  assumes "xs \<noteq> []"
  shows "\<exists>rest. sort xs = Min (set xs) # rest"
proof -
  from assms obtain m0 rest where s: "sort xs = m0 # rest"
    using sort_not_Nil by (cases "sort xs") auto
  have "sorted (m0 # rest)" using sorted_sort [of xs] by (simp only: s)
  then have le: "\<forall>y\<in>set rest. m0 \<le> y" by simp
  have set: "set xs = set (m0 # rest)" using set_sort [of "\<lambda>x. x" xs] by (simp only: s)
  have "Min (set xs) = m0"
  proof (rule Min_eqI)
    show "finite (set xs)" by simp
    show "m0 \<in> set xs" using set by simp
    show "m0 \<le> y" if "y \<in> set xs" for y using that le set by auto
  qed
  with s show ?thesis by simp
qed

lemma table_row_wide_model_cell:
  assumes "models stats \<noteq> []"
  shows "\<exists>y. table_row wide d stats =
           [] @ (v_ch @ padRight (js '' '' @ d) colDate @ v_ch @
                 padRight (js '' '' @ take 28 (Min (set (models stats)))) 30 @ v_ch) @ y"
proof -
  from assms obtain rest where "sort (models stats) = Min (set (models stats)) # rest"
    using sort_starts_with_Min by blast
  then show ?thesis
    by (simp add: table_row_def Let_def colModels_def)
qed

lemma sort_first_model_only:
  "(case sort (first_model_only ms) of [] \<Rightarrow> [] | m0 # rest \<Rightarrow> if m0 = [] then [] else take 28 m0)
   = (case sort ms of [] \<Rightarrow> [] | m0 # rest \<Rightarrow> if m0 = [] then [] else take 28 m0)"
  by (cases "sort ms") (simp_all add: first_model_only_def)

lemma table_row_first_model_only:
  "table_row tier d (stats\<lparr>models := first_model_only (models stats)\<rparr>) = table_row tier d stats"
  by (simp add: table_row_def Let_def sort_first_model_only)

lemma map_of_first_model_only:
  "map_of (map (\<lambda>(k, s). (k, s\<lparr>models := first_model_only (models s)\<rparr>)) m) d =
   map_option (\<lambda>s. s\<lparr>models := first_model_only (models s)\<rparr>) (map_of m d)"
  by (induction m) auto

lemma rows_loop_first_model_only:
  "rows_loop tier (map (\<lambda>(k, s). (k, s\<lparr>models := first_model_only (models s)\<rparr>)) m) ds st =
   rows_loop tier m ds st"
proof (induction ds arbitrary: st)
  case Nil
  show ?case by simp
next
  case (Cons d ds)
  show ?case
  proof (cases "map_of m d")
    case None
    then show ?thesis by (simp add: map_of_first_model_only)
  next
    case (Some stats)
    then show ?thesis
      by (simp add: map_of_first_model_only table_row_first_model_only Cons.IH)
  qed
qed

lemma keys_first_model_only:
  "map fst (map (\<lambda>(k, s). (k, s\<lparr>models := first_model_only (models s)\<rparr>)) m) = map fst m"
  by (induction m) auto

lemma renderUsageTable_first_model_only:
  "renderUsageTable (map (\<lambda>(k, s). (k, s\<lparr>models := first_model_only (models s)\<rparr>)) m) width =
   renderUsageTable m width"
  by (simp only: renderUsageTable_def keys_first_model_only rows_loop_first_model_only)

text \<open>
  Claim C10 (one model per day in the wide tier). In the wide tier the row of a day
  with a non-empty model set holds, after the date cell, a models cell made of the
  alphabetically first model of the set cut to its first 28 code units. The other models
  of the set leave no trace: rendering the aggregate in which every day's model set is
  cut down to its first element gives the same text.
\<close>

theorem wide_row_shows_first_model_only:
  assumes "tier_of width = wide" and "map_of dailyStats d = Some stats" and "models stats \<noteq> []"
  shows "\<exists>out. renderUsageTable dailyStats width = Inr out \<and>
           js_includes out (v_ch @ padRight (js '' '' @ d) colDate @ v_ch @
                            padRight (js '' '' @ take 28 (Min (set (models stats)))) 30 @ v_ch) \<and>
           renderUsageTable
             (map (\<lambda>(k, s). (k, s\<lparr>models := first_model_only (models s)\<rparr>)) dailyStats) width
           = Inr out"
proof -
  from render_row [OF assms(2), of width] assms(1)
  obtain out p q where out: "renderUsageTable dailyStats width = Inr out"
    and pq: "out = p @ (table_row wide d stats @ nl) @ q" by auto
  obtain y where "table_row wide d stats =
           [] @ (v_ch @ padRight (js '' '' @ d) colDate @ v_ch @
                 padRight (js '' '' @ take 28 (Min (set (models stats)))) 30 @ v_ch) @ y"
    using table_row_wide_model_cell [OF assms(3)] by blast
  then have "table_row wide d stats @ nl =
           [] @ (v_ch @ padRight (js '' '' @ d) colDate @ v_ch @
                 padRight (js '' '' @ take 28 (Min (set (models stats)))) 30 @ v_ch) @ (y @ nl)"
    by simp
  with pq have "js_includes out (v_ch @ padRight (js '' '' @ d) colDate @ v_ch @
                            padRight (js '' '' @ take 28 (Min (set (models stats)))) 30 @ v_ch)"
    by (rule js_includes_part)
  with out show ?thesis
    by (simp only: renderUsageTable_first_model_only) blast
qed

lemma sample_first_model:
  "Min (set (models stats_2025_02_11)) = js ''claude-opus-4-5''"
  by (simp add: stats_2025_02_11_def js_def)

theorem wide_row_shows_first_model_only_witness:
  "\<exists>out. renderUsageTable sample_stats (Some 180) = Inr out \<and>
     js_includes out (v_ch @ js '' 2025-02-11 '' @ v_ch @ js '' claude-opus-4-5              '' @ v_ch) \<and>
     renderUsageTable
       [(js ''2025-02-11'', stats_2025_02_11\<lparr>models := [js ''claude-opus-4-5'']\<rparr>),
        (js ''2025-02-10'', stats_2025_02_10)] (Some 180) = Inr out"
proof -
  have t: "tier_of (Some 180) = wide" by (simp add: tier_of_def getTableWidthTier_def)
  have m: "map_of sample_stats (js ''2025-02-11'') = Some stats_2025_02_11"
    by (simp add: sample_stats_def js_def)
  have ne: "models stats_2025_02_11 \<noteq> []" by (simp add: stats_2025_02_11_def)
  have s11: "first_model_only (models stats_2025_02_11) = [js ''claude-opus-4-5'']"
    by (simp add: first_model_only_def stats_2025_02_11_def js_def)
  have s10: "stats_2025_02_10\<lparr>models := first_model_only (models stats_2025_02_10)\<rparr> = stats_2025_02_10"
    by (simp add: first_model_only_def stats_2025_02_10_def)
  from wide_row_shows_first_model_only [OF t m ne]
  obtain out where out: "renderUsageTable sample_stats (Some 180) = Inr out"
    and cell: "js_includes out (v_ch @ padRight (js '' '' @ js ''2025-02-11'') colDate @ v_ch @
                 padRight (js '' '' @ take 28 (Min (set (models stats_2025_02_11)))) 30 @ v_ch)"
    and same: "renderUsageTable
             (map (\<lambda>(k, s). (k, s\<lparr>models := first_model_only (models s)\<rparr>)) sample_stats) (Some 180)
           = Inr out"
    by blast
  from cell have c: "js_includes out (v_ch @ js '' 2025-02-11 '' @ v_ch @ js '' claude-opus-4-5              '' @ v_ch)"
    by (simp add: sample_first_model padRight_def colDate_def js_def replicate_numeral)
  from same have s: "renderUsageTable
       [(js ''2025-02-11'', stats_2025_02_11\<lparr>models := [js ''claude-opus-4-5'']\<rparr>),
        (js ''2025-02-10'', stats_2025_02_10)] (Some 180) = Inr out"
    by (simp add: sample_stats_def s11 s10)
  show ?thesis
    by (rule exI [of _ out]) (simp only: out c s simp_thms)
qed

text \<open>The tiers by width, and the cases the tests of \<open>getTableWidthTier\<close> check.\<close>

lemma tier_of_widths:
  "tier_of None = wide"
  "tier_of (Some 0) = wide"
  "w \<noteq> 0 \<Longrightarrow> w < 105 \<Longrightarrow> tier_of (Some w) = narrow"
  "105 \<le> w \<Longrightarrow> w < 140 \<Longrightarrow> tier_of (Some w) = medium"
  "140 \<le> w \<Longrightarrow> tier_of (Some w) = wide"
  by (simp_all add: tier_of_def getTableWidthTier_def)

lemma getTableWidthTier_tests:
  "getTableWidthTier 50 = narrow" "getTableWidthTier 104 = narrow"
  "getTableWidthTier 105 = medium" "getTableWidthTier 139 = medium"
  "getTableWidthTier 140 = wide" "getTableWidthTier 200 = wide"
  by (simp_all add: getTableWidthTier_def)

end
